theory Spec2Isabelle
  imports Complex_Main "HOL-Library.Word" "HOL-Library.Sublist" "HOL-Library.AList"
begin

section \<open>Python values shared by the module\<close>

text \<open>
  The exceptions the module can let escape. \<open>IOError\<close> is Python's \<open>OSError\<close>
  (raised by \<open>tell\<close>/\<open>seek\<close> on a stream that cannot seek), \<open>IndexError\<close> comes
  from indexing a list or array out of range, \<open>ValueError\<close>, \<open>OverflowError\<close> and
  \<open>TypeError\<close> from the \<open>datetime\<close> constructor and from numpy, \<open>ZeroDivisionError\<close>
  from \<open>%\<close> and \<open>/\<close>.
\<close>

datatype py_error =
  IOError | IndexError | ValueError | OverflowError | TypeError | ZeroDivisionError

text \<open>A warning is the message handed to \<open>warnings.warn\<close>; every function that can
  warn returns the list of messages it emitted, in order.\<close>

type_synonym warning = string

section \<open>Continuous records\<close>

text \<open>
  \<open>NCS_RECORD\<close>: the numpy structured dtype of one continuous record. The unsigned
  fields are machine words (numpy arithmetic on them wraps around), the samples are
  \<open>int16\<close>.
\<close>

record ncs_record =
  TimeStamp :: "64 word"
  ChannelNumber :: "32 word"
  SampleFreq :: "32 word"
  NumValidSamples :: "32 word"
  Samples :: "16 word list"

text \<open>\<open>np.diff\<close> on a one-dimensional \<open>uint64\<close> array is \<open>a[1:] - a[:-1]\<close>, computed
  in \<open>uint64\<close> (it wraps around); on fewer than two elements the result is empty.\<close>

definition np_diff :: "64 word list \<Rightarrow> 64 word list" where
  "np_diff a = map (\<lambda>(x, y). y - x) (zip a (tl a))"

text \<open>\<open>np.abs\<close> on an unsigned array returns its argument unchanged.\<close>

definition np_abs :: "64 word \<Rightarrow> 64 word" where
  "np_abs d = d"

text \<open>
  \<open>check_ncs_records\<close>. \<open>dt[0]\<close> is evaluated before any of the checks and raises
  \<open>IndexError\<close> when \<open>dt\<close> is empty. The comparison \<open>dt <= 1\<close> is the unsigned one.
\<close>

definition check_ncs_records :: "ncs_record list \<Rightarrow> py_error + (bool \<times> warning list)" where
  "check_ncs_records records =
     (let dt = np_diff (map TimeStamp records) in
      case dt of
        [] \<Rightarrow> Inl IndexError
      | dt0 # _ \<Rightarrow>
          (let dt = map (\<lambda>d. np_abs (d - dt0)) dt in
           if \<not> list_all (\<lambda>r. ChannelNumber r = ChannelNumber (hd records)) records then
             Inr (False, [''Channel number changed during record sequence''])
           else if \<not> list_all (\<lambda>r. SampleFreq r = SampleFreq (hd records)) records then
             Inr (False, [''Sampling frequency changed during record sequence''])
           else if \<not> list_all (\<lambda>r. NumValidSamples r = 512) records then
             Inr (False, [''Invalid samples in one or more records''])
           else if \<not> list_all (\<lambda>d. d \<le> 1) dt then
             Inr (False, [''Time stamp difference tolerance exceeded''])
           else Inr (True, [])))"

text \<open>
  The consistency condition in the words of the specification: constant channel id,
  constant sample rate, every valid-sample count equal to 512, and every difference of
  consecutive timestamps within one microsecond of the first difference. The
  differences are taken over the integers.
\<close>

definition timestamp_gap :: "ncs_record list \<Rightarrow> nat \<Rightarrow> int" where
  "timestamp_gap records i = uint (TimeStamp (records ! Suc i)) - uint (TimeStamp (records ! i))"

definition consistent_by_spec :: "ncs_record list \<Rightarrow> bool" where
  "consistent_by_spec records =
     (list_all (\<lambda>r. ChannelNumber r = ChannelNumber (hd records)) records \<and>
      list_all (\<lambda>r. SampleFreq r = SampleFreq (hd records)) records \<and>
      list_all (\<lambda>r. NumValidSamples r = 512) records \<and>
      list_all (\<lambda>i. \<bar>timestamp_gap records i - timestamp_gap records 0\<bar> \<le> 1)
        [0..<length records - 1])"

text \<open>A record of channel 1 at 32 kHz with all 512 samples valid, starting at \<open>t\<close>.\<close>

definition full_record :: "64 word \<Rightarrow> ncs_record" where
  "full_record t =
     \<lparr>TimeStamp = t, ChannelNumber = 1, SampleFreq = 32000, NumValidSamples = 512,
      Samples = replicate 512 0\<rparr>"

section \<open>Python string operations\<close>

text \<open>
  A byte and a character of the decoded header are both a \<open>char\<close> (eight bits), so
  decoding \<open>iso-8859-1\<close>, which maps byte \<open>b\<close> to code point \<open>b\<close>, is the identity.
  The whitespace of \<open>str.split()\<close> and \<open>str.strip()\<close> among the first 256 code
  points: tab to carriage return, the four separators \<open>0x1c\<close> to \<open>0x1f\<close>, space,
  \<open>0x85\<close> and \<open>0xa0\<close>.
\<close>

definition is_space :: "char \<Rightarrow> bool" where
  "is_space c = (let n = (of_char c :: nat) in
     (9 \<le> n \<and> n \<le> 13) \<or> (28 \<le> n \<and> n \<le> 32) \<or> n = 133 \<or> n = 160)"

text \<open>\<open>strip\<close> removes the characters in question from both ends.\<close>

definition strip_with :: "(char \<Rightarrow> bool) \<Rightarrow> string \<Rightarrow> string" where
  "strip_with P s = rev (dropWhile P (rev (dropWhile P s)))"

definition py_strip :: "string \<Rightarrow> string" where
  "py_strip s = strip_with is_space s"

text \<open>\<open>bytes.strip(chars)\<close>: strips every byte that occurs in \<open>chars\<close>.\<close>

definition bytes_strip :: "string \<Rightarrow> string \<Rightarrow> string" where
  "bytes_strip chars s = strip_with (\<lambda>c. c \<in> set chars) s"

text \<open>\<open>str.split()\<close> with no argument: the maximal runs of non-whitespace.\<close>

function py_split :: "string \<Rightarrow> string list" where
  "py_split s =
     (case dropWhile is_space s of
        [] \<Rightarrow> []
      | c # cs \<Rightarrow>
          (c # takeWhile (\<lambda>x. \<not> is_space x) cs) # py_split (dropWhile (\<lambda>x. \<not> is_space x) cs))"
  by pat_completeness auto
termination
proof (relation "measure length")
  show "wf (measure length)" by simp
next
  fix s :: string and c cs
  assume "dropWhile is_space s = c # cs"
  then have "length (c # cs) \<le> length s"
    by (metis length_dropWhile_le)
  moreover have "length (dropWhile (\<lambda>x. \<not> is_space x) cs) \<le> length cs"
    by (rule length_dropWhile_le)
  ultimately show "(dropWhile (\<lambda>x. \<not> is_space x) cs, s) \<in> measure length"
    by simp
qed

declare py_split.simps [simp del]

text \<open>\<open>str.split(sep)\<close> for a non-empty separator: the pieces between the leftmost
  non-overlapping occurrences of \<open>sep\<close>. The module only passes literal separators.\<close>

fun add_char :: "char \<Rightarrow> string list \<Rightarrow> string list" where
  "add_char c [] = [[c]]"
| "add_char c (t # ts) = (c # t) # ts"

function split_on :: "string \<Rightarrow> string \<Rightarrow> string list" where
  "split_on sep [] = [[]]"
| "split_on sep (c # cs) =
     (if sep \<noteq> [] \<and> prefix sep (c # cs)
      then [] # split_on sep (drop (length sep) (c # cs))
      else add_char c (split_on sep cs))"
  by pat_completeness auto
termination
  by (relation "measure (\<lambda>(sep, s). length s)") auto

fun py_join :: "string \<Rightarrow> string list \<Rightarrow> string" where
  "py_join sep [] = []"
| "py_join sep [x] = x"
| "py_join sep (x # y # ys) = x @ sep @ py_join sep (y # ys)"

text \<open>\<open>str.replace(old, new)\<close> for one-character strings.\<close>

definition py_replace :: "char \<Rightarrow> char \<Rightarrow> string \<Rightarrow> string" where
  "py_replace old new s = map (\<lambda>c. if c = old then new else c) s"

text \<open>
  \<open>int(s)\<close> on a string: surrounding whitespace is ignored, then an optional sign and
  decimal digits, where a single underscore may stand between two digits (Python 3.6
  and later). \<open>None\<close> is the \<open>ValueError\<close> of a string that is not a number. Among
  the first 256 code points only \<open>0\<close> to \<open>9\<close> are decimal digits.
\<close>

definition is_digit :: "char \<Rightarrow> bool" where
  "is_digit c = (let n = (of_char c :: nat) in 48 \<le> n \<and> n \<le> 57)"

definition digit_val :: "char \<Rightarrow> nat" where
  "digit_val c = of_char c - 48"

fun int_digits :: "nat \<Rightarrow> string \<Rightarrow> nat option" where
  "int_digits acc [] = Some acc"
| "int_digits acc (c # cs) =
     (if is_digit c then int_digits (10 * acc + digit_val c) cs
      else if c = CHR ''_'' \<and> cs \<noteq> [] \<and> is_digit (hd cs) then int_digits acc cs
      else None)"

definition py_int :: "string \<Rightarrow> int option" where
  "py_int s =
     (case py_strip s of
        [] \<Rightarrow> None
      | c # cs \<Rightarrow>
          (let neg = (c = CHR ''-'');
               ds = (if c = CHR ''-'' \<or> c = CHR ''+'' then cs else c # cs)
           in if ds = [] \<or> \<not> is_digit (hd ds) then None
              else map_option (\<lambda>n. if neg then - int n else int n) (int_digits 0 ds)))"

text \<open>List indexing that can fail: \<open>xs[i]\<close> for \<open>i \<ge> 0\<close> and \<open>xs[-1]\<close>.\<close>

definition nth_opt :: "'a list \<Rightarrow> nat \<Rightarrow> 'a option" where
  "nth_opt xs i = (if i < length xs then Some (xs ! i) else None)"

definition last_opt :: "'a list \<Rightarrow> 'a option" where
  "last_opt xs = (if xs = [] then None else Some (last xs))"

section \<open>Points in time\<close>

text \<open>
  \<open>datetime.datetime(year, month, day, hour, minute, second, microsecond)\<close>. The
  constructor takes each argument as a C \<open>int\<close> (\<open>OverflowError\<close> outside 32 bits) and
  then checks the ranges (\<open>ValueError\<close>).
\<close>

record datetime =
  year :: int
  month :: int
  day :: int
  hour :: int
  minute :: int
  second :: int
  microsecond :: int

definition is_leap :: "int \<Rightarrow> bool" where
  "is_leap y = (y mod 4 = 0 \<and> (y mod 100 \<noteq> 0 \<or> y mod 400 = 0))"

definition days_in_month :: "int \<Rightarrow> int \<Rightarrow> int" where
  "days_in_month y m =
     (if m = 2 then (if is_leap y then 29 else 28)
      else if m = 4 \<or> m = 6 \<or> m = 9 \<or> m = 11 then 30 else 31)"

definition c_int :: "int \<Rightarrow> bool" where
  "c_int n = (- (2 ^ 31) \<le> n \<and> n < 2 ^ 31)"

definition datetime_new ::
  "int \<Rightarrow> int \<Rightarrow> int \<Rightarrow> int \<Rightarrow> int \<Rightarrow> int \<Rightarrow> int \<Rightarrow> py_error + datetime" where
  "datetime_new y m d hh mm ss us =
     (if \<not> list_all c_int [y, m, d, hh, mm, ss, us] then Inl OverflowError
      else if 1 \<le> y \<and> y \<le> 9999 \<and> 1 \<le> m \<and> m \<le> 12 \<and> 1 \<le> d \<and> d \<le> days_in_month y m \<and>
              0 \<le> hh \<and> hh \<le> 23 \<and> 0 \<le> mm \<and> mm \<le> 59 \<and> 0 \<le> ss \<and> ss \<le> 59 \<and>
              0 \<le> us \<and> us \<le> 999999
      then Inr \<lparr>year = y, month = m, day = d, hour = hh, minute = mm, second = ss,
                microsecond = us\<rparr>
      else Inl ValueError)"

text \<open>
  \<open>parse_neuralynx_time_string\<close>. The \<open>try\<close> block computes the date fields, the time
  fields and the microseconds; any exception in it (a missing token, a field that is
  not a number, fewer than four time fields) is caught: \<open>None\<close> below.
\<close>

definition parse_time_fields :: "string \<Rightarrow> (int list \<times> int list \<times> int) option" where
  "parse_time_fields time_string =
     (case nth_opt (py_split time_string) 4 of
        None \<Rightarrow> None
      | Some date_token \<Rightarrow>
     (case those (map py_int (split_on ''/'' date_token)) of
        None \<Rightarrow> None
      | Some tmp_date \<Rightarrow>
     (case last_opt (py_split time_string) of
        None \<Rightarrow> None
      | Some time_token \<Rightarrow>
     (case those (map py_int (split_on '':'' (py_replace CHR ''.'' CHR '':'' time_token))) of
        None \<Rightarrow> None
      | Some tmp_time \<Rightarrow>
     (case nth_opt tmp_time 3 of
        None \<Rightarrow> None
      | Some ms \<Rightarrow> Some (tmp_date, tmp_time, ms * 1000))))))"

text \<open>
  The \<open>except\<close> branch warns and returns \<open>None\<close>. The \<open>else\<close> branch builds the
  \<open>datetime\<close> outside the \<open>try\<close>: \<open>tmp_date[2]\<close> raises \<open>IndexError\<close> when the date
  has fewer than three fields (the time has at least four here), and the constructor's
  own error escapes.
\<close>

definition parse_neuralynx_time_string ::
  "string \<Rightarrow> py_error + (datetime option \<times> warning list)" where
  "parse_neuralynx_time_string time_string =
     (case parse_time_fields time_string of
        None \<Rightarrow>
          Inr (None, [''Unable to parse time string from Neuralynx header: '' @ time_string])
      | Some (tmp_date, tmp_time, tmp_microsecond) \<Rightarrow>
          if length tmp_date < 3 then Inl IndexError
          else (case datetime_new (tmp_date ! 2) (tmp_date ! 0) (tmp_date ! 1)
                       (tmp_time ! 0) (tmp_time ! 1) (tmp_time ! 2) tmp_microsecond of
                  Inl e \<Rightarrow> Inl e
                | Inr d \<Rightarrow> Inr (Some d, [])))"

section \<open>Header parser\<close>

text \<open>The values of the header dictionary: text, or a parsed time (\<open>None\<close> in Python
  when the time string could not be parsed).\<close>

datatype hval = Str string | Parsed "datetime option"

text \<open>
  The dictionary is an association list in insertion order: assigning to a key that is
  present replaces its value in place, assigning to a new key appends it, as a Python
  \<open>dict\<close> does. \<open>map_of\<close> is the lookup.
\<close>

type_synonym header = "(string \<times> hval) list"

definition dict_set :: "header \<Rightarrow> string \<Rightarrow> hval \<Rightarrow> header" where
  "dict_set hdr k v = AList.update k v hdr"

definition CRLF :: string where
  "CRLF = [CHR 0x0D, CHR 0x0A]"

definition banner :: string where
  "banner = ''######## Neuralynx Data File Header''"

text \<open>The \<open>try\<close> block on the file-name line: the assertion on tokens 1 and 2, then the
  remaining tokens joined by single spaces. \<open>None\<close> when the assertion fails.\<close>

definition parse_file_name :: "string \<Rightarrow> string option" where
  "parse_file_name line =
     (if take 2 (drop 1 (py_split line)) = [''File'', ''Name'']
      then Some (py_join '' '' (drop 3 (py_split line)))
      else None)"

text \<open>The loop over the parameter lines: the first character is dropped whatever it
  is, and the rest must split into exactly two tokens.\<close>

fun parse_params :: "string list \<Rightarrow> header \<times> warning list \<Rightarrow> header \<times> warning list" where
  "parse_params [] st = st"
| "parse_params (line # rest) (hdr, ws) =
     (case py_split (drop 1 line) of
        [name, v] \<Rightarrow> parse_params rest (dict_set hdr name (Str v), ws)
      | _ \<Rightarrow>
        parse_params rest
          (hdr, ws @ [''Unable to parse parameter line from Neuralynx header: '' @ line]))"

text \<open>The list comprehension that builds \<open>hdr_lines\<close>: split at CRLF, drop the empty
  pieces, then strip each remaining piece (a piece of whitespace only stays, as the
  empty line).\<close>

definition header_lines :: "string \<Rightarrow> string list" where
  "header_lines raw_hdr = map py_strip (filter (\<lambda>line. line \<noteq> []) (split_on CRLF raw_hdr))"

text \<open>
  \<open>parse_header\<close>. \<open>hdr_lines[0]\<close>, \<open>hdr_lines[2]\<close> and \<open>hdr_lines[3]\<close> are read outside
  any \<open>try\<close>; \<open>hdr_lines[1]\<close> is read inside one, but its \<open>except\<close> handler reads it
  again to build the warning, so a missing line escapes as \<open>IndexError\<close> there too. An
  error of \<open>parse_neuralynx_time_string\<close> escapes as well.
\<close>

definition parse_header :: "string \<Rightarrow> py_error + (header \<times> warning list)" where
  "parse_header raw_hdr =
     (let hdr_lines = header_lines raw_hdr in
      if length hdr_lines < 1 then Inl IndexError
      else
        let w0 = (if hdr_lines ! 0 \<noteq> banner
                  then [''Unexpected start to header: '' @ hdr_lines ! 0] else [])
        in
        if length hdr_lines < 2 then Inl IndexError
        else
          let (hdr1, w1) =
            (case parse_file_name (hdr_lines ! 1) of
               Some path \<Rightarrow> (dict_set [] ''FileName'' (Str path), [])
             | None \<Rightarrow>
                 ([],
                  [''Unable to parse original file path from Neuralynx header: '' @
                   hdr_lines ! 1]))
          in
          if length hdr_lines < 3 then Inl IndexError
          else
            (case parse_neuralynx_time_string (hdr_lines ! 2) of
               Inl e \<Rightarrow> Inl e
             | Inr (opened_dt, w2) \<Rightarrow>
                 if length hdr_lines < 4 then Inl IndexError
                 else
                   (case parse_neuralynx_time_string (hdr_lines ! 3) of
                      Inl e \<Rightarrow> Inl e
                    | Inr (closed_dt, w3) \<Rightarrow>
                        (let hdr2 = dict_set hdr1 ''TimeOpened'' (Str (drop 3 (hdr_lines ! 2)));
                             hdr3 = dict_set hdr2 ''TimeOpened_dt'' (Parsed opened_dt);
                             hdr4 = dict_set hdr3 ''TimeClosed'' (Str (drop 3 (hdr_lines ! 3)));
                             hdr5 = dict_set hdr4 ''TimeClosed_dt'' (Parsed closed_dt)
                         in Inr (parse_params (drop 4 hdr_lines)
                                   (hdr5, w0 @ w1 @ w2 @ w3))))))"

section \<open>File objects\<close>

text \<open>
  A binary file object as the module uses it: the bytes of the file, the current
  position, and whether the stream can seek. \<open>tell\<close> and \<open>seek\<close> raise \<open>IOError\<close> on
  a stream that cannot seek; \<open>read(n)\<close> returns the at most \<open>n\<close> bytes from the position
  to the end of the file (fewer at the end, never an error) and advances the position.
  A position past the end is allowed.
\<close>

record fileobj =
  content :: string
  fpos :: nat
  seekable :: bool

definition fid_tell :: "fileobj \<Rightarrow> py_error + nat" where
  "fid_tell fid = (if seekable fid then Inr (fpos fid) else Inl IOError)"

text \<open>\<open>seek(offset, whence)\<close> for \<open>whence = 0\<close> (absolute) and \<open>whence = 1\<close> (relative
  to the position); a negative target is an \<open>IOError\<close>.\<close>

definition fid_seek :: "fileobj \<Rightarrow> int \<Rightarrow> nat \<Rightarrow> py_error + fileobj" where
  "fid_seek fid offset whence =
     (let target = (if whence = 1 then int (fpos fid) + offset else offset) in
      if target < 0 \<or> \<not> seekable fid then Inl IOError
      else Inr (fid\<lparr>fpos := nat target\<rparr>))"

definition fid_read :: "fileobj \<Rightarrow> nat \<Rightarrow> string \<times> fileobj" where
  "fid_read fid n =
     (let bytes = take n (drop (fpos fid) (content fid))
      in (bytes, fid\<lparr>fpos := fpos fid + length bytes\<rparr>))"

section \<open>Header reader\<close>

definition HEADER_LENGTH :: nat where
  "HEADER_LENGTH = 16 * 1024"

text \<open>\<open>read_header\<close>: remember the position, read from the start, strip, restore.\<close>

definition read_header :: "fileobj \<Rightarrow> py_error + (string \<times> fileobj)" where
  "read_header fid =
     (case fid_tell fid of
        Inl e \<Rightarrow> Inl e
      | Inr pos \<Rightarrow>
     (case fid_seek fid 0 0 of
        Inl e \<Rightarrow> Inl e
      | Inr fid1 \<Rightarrow>
          (let (bytes, fid2) = fid_read fid1 HEADER_LENGTH;
               raw_hdr = bytes_strip [CHR 0x00] bytes
           in case fid_seek fid2 (int pos) 0 of
                Inl e \<Rightarrow> Inl e
              | Inr fid3 \<Rightarrow> Inr (raw_hdr, fid3))))"

section \<open>Record decoder\<close>

text \<open>A record layout: the size of one record in bytes and the decoding of one
  record's bytes.\<close>

record 'r dtype =
  itemsize :: nat
  decode :: "string \<Rightarrow> 'r"

text \<open>An unsigned little-endian integer (the byte order of the format, and the native
  one of the machines the module runs on).\<close>

definition le_word :: "string \<Rightarrow> 'a::len word" where
  "le_word bs = foldr (\<lambda>b w. of_nat (of_char b) + 256 * w) bs 0"

definition NCS_SAMPLES_PER_RECORD :: nat where
  "NCS_SAMPLES_PER_RECORD = 512"

definition decode_ncs :: "string \<Rightarrow> ncs_record" where
  "decode_ncs b =
     \<lparr>TimeStamp = le_word (take 8 b),
      ChannelNumber = le_word (take 4 (drop 8 b)),
      SampleFreq = le_word (take 4 (drop 12 b)),
      NumValidSamples = le_word (take 4 (drop 16 b)),
      Samples = map (\<lambda>i. le_word (take 2 (drop (20 + 2 * i) b))) [0..<NCS_SAMPLES_PER_RECORD]\<rparr>"

definition NCS_RECORD :: "ncs_record dtype" where
  "NCS_RECORD = \<lparr>itemsize = 8 + 4 + 4 + 4 + 2 * NCS_SAMPLES_PER_RECORD, decode = decode_ncs\<rparr>"

text \<open>
  \<open>np.fromfile(fid, dtype, count)\<close> in binary mode. With a negative \<open>count\<close> the number
  of items is the number of bytes from the position to the end divided by the item
  size, rounded towards zero (a negative number of items is a \<open>ValueError\<close>); otherwise
  it is \<open>count\<close>. Only complete items are read, so fewer than \<open>count\<close> when the file
  ends first. The position afterwards is not used by the module, which seeks at once.
\<close>

definition np_fromfile :: "fileobj \<Rightarrow> 'r dtype \<Rightarrow> int \<Rightarrow> py_error + ('r list \<times> fileobj)" where
  "np_fromfile fid record_dtype count =
     (let size = int (itemsize record_dtype);
          avail = int (length (content fid)) - int (fpos fid);
          num = (if count < 0 then sgn avail * (\<bar>avail\<bar> div size) else count);
          nread = nat (min num (max avail 0 div size))
      in if size = 0 \<or> num < 0 then Inl ValueError
         else Inr (map (\<lambda>i. decode record_dtype
                           (take (itemsize record_dtype)
                              (drop (fpos fid + i * itemsize record_dtype) (content fid))))
                     [0..<nread],
                   fid\<lparr>fpos := fpos fid + nread * itemsize record_dtype\<rparr>))"

text \<open>\<open>read_records\<close>: skip the header and \<open>record_skip\<close> records, read, restore the
  position. It emits no warning.\<close>

definition read_records ::
  "fileobj \<Rightarrow> 'r dtype \<Rightarrow> int \<Rightarrow> int option \<Rightarrow> py_error + ('r list \<times> fileobj)" where
  "read_records fid record_dtype record_skip count =
     (let count = (case count of None \<Rightarrow> - 1 | Some c \<Rightarrow> c) in
      case fid_tell fid of
        Inl e \<Rightarrow> Inl e
      | Inr pos \<Rightarrow>
     (case fid_seek fid (int HEADER_LENGTH) 0 of
        Inl e \<Rightarrow> Inl e
      | Inr fid1 \<Rightarrow>
     (case fid_seek fid1 (record_skip * int (itemsize record_dtype)) 1 of
        Inl e \<Rightarrow> Inl e
      | Inr fid2 \<Rightarrow>
     (case np_fromfile fid2 record_dtype count of
        Inl e \<Rightarrow> Inl e
      | Inr (rec, fid3) \<Rightarrow>
     (case fid_seek fid3 (int pos) 0 of
        Inl e \<Rightarrow> Inl e
      | Inr fid4 \<Rightarrow> Inr (rec, fid4))))))"

section \<open>Continuous-signal assembler\<close>

text \<open>
  \<open>float64\<close> is a parameter: the type \<open>'f\<close> of its values with the operations the
  module uses. \<open>f64_of_str\<close> is \<open>np.float64\<close> on a string (\<open>None\<close> is its
  \<open>ValueError\<close>), \<open>f64_of_int\<close> the conversion of an integer array element,
  \<open>f64_to_uint64\<close> is \<open>astype(np.uint64)\<close>.
\<close>

record 'f float64_ops =
  f64_of_str :: "string \<Rightarrow> 'f option"
  f64_of_int :: "int \<Rightarrow> 'f"
  f64_add :: "'f \<Rightarrow> 'f \<Rightarrow> 'f"
  f64_sub :: "'f \<Rightarrow> 'f \<Rightarrow> 'f"
  f64_mul :: "'f \<Rightarrow> 'f \<Rightarrow> 'f"
  f64_div :: "'f \<Rightarrow> 'f \<Rightarrow> 'f"
  f64_to_uint64 :: "'f \<Rightarrow> 64 word"

text \<open>
  \<open>estimate_record_count\<close> on the size \<open>os.path.getsize\<close> reports. The quotient is a
  true division (\<open>from __future__ import division\<close>), so the result is a float. No
  other function of the module calls it.
\<close>

definition estimate_record_count ::
  "'f float64_ops \<Rightarrow> nat \<Rightarrow> 'r dtype \<Rightarrow> py_error + ('f \<times> warning list)" where
  "estimate_record_count ops size_on_disk record_dtype =
     (let file_size = int size_on_disk - int HEADER_LENGTH in
      if itemsize record_dtype = 0 then Inl ZeroDivisionError
      else Inr (f64_div ops (f64_of_int ops file_size)
                  (f64_of_int ops (int (itemsize record_dtype))),
                if file_size mod int (itemsize record_dtype) \<noteq> 0
                then [''File size is not divisible by record size (some bytes unaccounted for)'']
                else []))"

text \<open>The sample array: raw \<open>int16\<close> counts, or \<open>float64\<close> values after rescaling.\<close>

datatype 'f sample_data = Counts "16 word list" | Scaled "'f list"

fun data_length :: "'f sample_data \<Rightarrow> nat" where
  "data_length (Counts xs) = length xs"
| "data_length (Scaled xs) = length xs"

definition MICROVOLT_SCALING :: "int \<times> string" where
  "MICROVOLT_SCALING = (1000000, [CHR 0xB5, CHR ''V''])"

text \<open>
  The rescaling block of \<open>load_ncs\<close>. Only the \<open>KeyError\<close> of a missing \<open>ADBitVolts\<close>
  is caught; a value that \<open>np.float64\<close> rejects escapes. Parameter lines only store
  strings, so the lookup never finds a parsed time under this key.
\<close>

definition rescale ::
  "'f float64_ops \<Rightarrow> header \<Rightarrow> int \<times> string \<Rightarrow> 16 word list \<Rightarrow>
   py_error + ('f sample_data \<times> bool \<times> warning list)" where
  "rescale ops hdr signal_scaling samples =
     (case map_of hdr ''ADBitVolts'' of
        None \<Rightarrow>
          Inr (Counts samples, False,
               [''Unable to rescale data, no ADBitVolts value specified in header''])
      | Some (Parsed _) \<Rightarrow> Inl TypeError
      | Some (Str v) \<Rightarrow>
          (case f64_of_str ops v of
             None \<Rightarrow> Inl ValueError
           | Some bit_volts \<Rightarrow>
               (let factor = f64_mul ops bit_volts (f64_of_int ops (fst signal_scaling))
                in Inr (Scaled (map (\<lambda>x. f64_mul ops (f64_of_int ops (sint x)) factor) samples),
                        True, []))))"

text \<open>
  \<open>np.interp(x, xp, fp)\<close> at one point \<open>x\<close>, for sample points \<open>xp\<close> in increasing
  order: left of the first sample point the first value, right of the last sample
  point the last value, at a sample point its value, and in between the line through
  the two neighbours. The points \<open>x\<close> and \<open>xp\<close> are indices (exact as \<open>float64\<close>), so
  they are compared as naturals.
\<close>

definition np_interp :: "'f float64_ops \<Rightarrow> nat list \<Rightarrow> 'f list \<Rightarrow> nat \<Rightarrow> 'f" where
  "np_interp ops xp fp x =
     (let n = length xp in
      if x < xp ! 0 then fp ! 0
      else if xp ! (n - 1) < x then fp ! (n - 1)
      else
        (let j = length (takeWhile (\<lambda>v. v \<le> x) xp) - 1 in
         if j = n - 1 \<or> xp ! j = x then fp ! j
         else
           (let slope = f64_div ops (f64_sub ops (fp ! (j + 1)) (fp ! j))
                          (f64_of_int ops (int (xp ! (j + 1)) - int (xp ! j)))
            in f64_add ops
                 (f64_mul ops slope (f64_of_int ops (int x - int (xp ! j))))
                 (fp ! j))))"

text \<open>
  The per-sample times of \<open>load_ncs\<close>: \<open>np.interp\<close> of the indices
  \<open>arange(num_samples)\<close> over the sample points \<open>arange(0, num_samples, 512)\<close> with
  the record timestamps as values, then \<open>astype(np.uint64)\<close>. \<open>np.interp\<close> raises
  \<open>ValueError\<close> on no sample points and on arrays of different lengths.
\<close>

definition sample_times ::
  "'f float64_ops \<Rightarrow> ncs_record list \<Rightarrow> nat \<Rightarrow> py_error + 64 word list" where
  "sample_times ops records num_samples =
     (let xp = map (\<lambda>k. 512 * k) [0..<(num_samples + 511) div 512];
          fp = map (\<lambda>r. f64_of_int ops (uint (TimeStamp r))) records
      in if xp = [] \<or> length xp \<noteq> length fp then Inl ValueError
         else Inr (map (\<lambda>x. f64_to_uint64 ops (np_interp ops xp fp x)) [0..<num_samples]))"

text \<open>The dictionary \<open>load_ncs\<close> returns (without the path, which the model does not
  have: it is given the bytes of the file).\<close>

record 'f ncs =
  ncs_raw_header :: string
  ncs_header :: header
  ncs_data :: "'f sample_data"
  ncs_data_units :: string
  ncs_sampling_rate :: "32 word"
  ncs_channel_number :: "32 word"
  ncs_timestamp :: "64 word list"
  ncs_time :: "64 word list option"
  ncs_time_units :: "string option"

text \<open>
  \<open>load_ncs\<close> on the bytes of the file at \<open>file_path\<close> (a regular file opened for
  reading: position 0, seekable). The result of \<open>check_ncs_records\<close> is dropped, its
  warnings and its error are not.
\<close>

definition load_ncs ::
  "'f float64_ops \<Rightarrow> string \<Rightarrow> bool \<Rightarrow> bool \<Rightarrow> int \<times> string \<Rightarrow>
   py_error + ('f ncs \<times> warning list)" where
  "load_ncs ops file_bytes load_time rescale_data signal_scaling =
     (let fid = \<lparr>content = file_bytes, fpos = 0, seekable = True\<rparr> in
      case read_header fid of
        Inl e \<Rightarrow> Inl e
      | Inr (raw_header, fid1) \<Rightarrow>
     (case read_records fid1 NCS_RECORD 0 None of
        Inl e \<Rightarrow> Inl e
      | Inr (records, fid2) \<Rightarrow>
     (case parse_header raw_header of
        Inl e \<Rightarrow> Inl e
      | Inr (hdr, w1) \<Rightarrow>
     (case check_ncs_records records of
        Inl e \<Rightarrow> Inl e
      | Inr (consistent, w2) \<Rightarrow>
     (let samples = concat (map Samples records) in
      case (if rescale_data then rescale ops hdr signal_scaling samples
            else Inr (Counts samples, False, [])) of
        Inl e \<Rightarrow> Inl e
      | Inr (data, rescaled, w3) \<Rightarrow>
     (case records of
        [] \<Rightarrow> Inl IndexError
      | r0 # _ \<Rightarrow>
     (case (if load_time
            then map_sum id Some (sample_times ops records (data_length data))
            else Inr None) of
        Inl e \<Rightarrow> Inl e
      | Inr time_points \<Rightarrow>
          Inr (\<lparr>ncs_raw_header = raw_header,
                ncs_header = hdr,
                ncs_data = data,
                ncs_data_units = (if rescaled then snd signal_scaling else ''ADC counts''),
                ncs_sampling_rate = SampleFreq r0,
                ncs_channel_number = ChannelNumber r0,
                ncs_timestamp = map TimeStamp records,
                ncs_time = time_points,
                ncs_time_units = (if load_time then Some [CHR 0xB5, CHR ''s''] else None)\<rparr>,
               w1 @ w2 @ w3))))))))"

section \<open>Synthetic inputs and the specification's wording\<close>

text \<open>A header text: every line followed by CRLF.\<close>

definition header_text :: "string list \<Rightarrow> string" where
  "header_text ls = concat (map (\<lambda>l. l @ CRLF) ls)"

text \<open>A single token: not empty and free of whitespace.\<close>

definition is_token :: "string \<Rightarrow> bool" where
  "is_token t = (t \<noteq> [] \<and> list_all (\<lambda>c. \<not> is_space c) t)"

text \<open>The parameter line \<open>-NAME VALUE\<close>.\<close>

definition param_line :: "string \<times> string \<Rightarrow> string" where
  "param_line p = CHR ''-'' # fst p @ '' '' @ snd p"

text \<open>The keys \<open>parse_header\<close> derives from the four leading lines.\<close>

definition reserved_keys :: "string list" where
  "reserved_keys =
     [''FileName'', ''TimeOpened'', ''TimeOpened_dt'', ''TimeClosed'', ''TimeClosed_dt'']"

text \<open>
  An instance of the \<open>float64\<close> parameter for the examples: exact rational
  arithmetic, \<open>astype(np.uint64)\<close> as truncation, and \<open>np.float64\<close> on plain decimal
  literals \<open>digits.digits\<close> with an optional minus sign. On the examples below every
  value is a multiple of \<open>2^-9\<close> below \<open>2^53\<close>, so \<open>float64\<close> computes the same.
\<close>

definition digits_nat :: "string \<Rightarrow> nat" where
  "digits_nat ds = foldl (\<lambda>acc c. 10 * acc + digit_val c) 0 ds"

definition parse_decimal :: "string \<Rightarrow> rat option" where
  "parse_decimal s =
     (let neg = (s \<noteq> [] \<and> hd s = CHR ''-'');
          body = (if neg then tl s else s)
      in case split_on ''.'' body of
           [a, b] \<Rightarrow>
             if a \<noteq> [] \<and> b \<noteq> [] \<and> list_all is_digit (a @ b)
             then (let q = of_nat (digits_nat (a @ b)) / 10 ^ length b
                   in Some (if neg then - q else q))
             else None
         | _ \<Rightarrow> None)"

definition exact_ops :: "rat float64_ops" where
  "exact_ops =
     \<lparr>f64_of_str = parse_decimal, f64_of_int = of_int, f64_add = (+), f64_sub = (-),
      f64_mul = (*), f64_div = (/), f64_to_uint64 = (\<lambda>q. word_of_int \<lfloor>q\<rfloor>)\<rparr>"

text \<open>
  A continuous file: a header of six lines padded with null bytes to 16384 bytes, two
  records (channel 1, 32000 Hz, 512 valid samples, all samples 0, timestamps 1000 and
  2000) and 17 further bytes.
\<close>

definition example_lines :: "string list" where
  "example_lines =
     [banner,
      ''## File Name C:/data/CSC1.ncs'',
      ''## Time Opened (m/d/y): 12/25/2020  (h:m:s.ms) 13:45:30.500'',
      ''## Time Closed (m/d/y): 12/25/2020  (h:m:s.ms) 14:0:0.0'',
      ''-ADBitVolts 0.5'',
      ''-SamplingFrequency 32000'']"

definition example_record_bytes :: "char \<Rightarrow> char \<Rightarrow> string" where
  "example_record_bytes t0 t1 =
     [t0, t1, CHR 0x00, CHR 0x00, CHR 0x00, CHR 0x00, CHR 0x00, CHR 0x00,
      CHR 0x01, CHR 0x00, CHR 0x00, CHR 0x00,
      CHR 0x00, CHR 0x7D, CHR 0x00, CHR 0x00,
      CHR 0x00, CHR 0x02, CHR 0x00, CHR 0x00] @ replicate 1024 (CHR 0x00)"

definition example_file :: string where
  "example_file =
     header_text example_lines @
     replicate (HEADER_LENGTH - length (header_text example_lines)) (CHR 0x00) @
     example_record_bytes (CHR 0xE8) (CHR 0x03) @
     example_record_bytes (CHR 0xD0) (CHR 0x07) @
     replicate 17 (CHR 0xFF)"

definition example_header :: header where
  "example_header =
     [(''FileName'', Str ''C:/data/CSC1.ncs''),
      (''TimeOpened'', Str ''Time Opened (m/d/y): 12/25/2020  (h:m:s.ms) 13:45:30.500''),
      (''TimeOpened_dt'',
       Parsed (Some \<lparr>year = 2020, month = 12, day = 25, hour = 13, minute = 45,
                      second = 30, microsecond = 500000\<rparr>)),
      (''TimeClosed'', Str ''Time Closed (m/d/y): 12/25/2020  (h:m:s.ms) 14:0:0.0''),
      (''TimeClosed_dt'',
       Parsed (Some \<lparr>year = 2020, month = 12, day = 25, hour = 14, minute = 0,
                      second = 0, microsecond = 0\<rparr>)),
      (''ADBitVolts'', Str ''0.5''),
      (''SamplingFrequency'', Str ''32000'')]"

text \<open>What an outcome of \<open>load_ncs\<close> holds: the derived time of sample \<open>i\<close>, and the
  warnings emitted.\<close>

definition result_time :: "py_error + ('f ncs \<times> warning list) \<Rightarrow> nat \<Rightarrow> 64 word option" where
  "result_time res i =
     (case res of
        Inl e \<Rightarrow> None
      | Inr (r, ws) \<Rightarrow>
          (case ncs_time r of
             None \<Rightarrow> None
           | Some ts \<Rightarrow> if i < length ts then Some (ts ! i) else None))"

definition result_warnings :: "py_error + ('f ncs \<times> warning list) \<Rightarrow> warning list option" where
  "result_warnings res = (case res of Inl e \<Rightarrow> None | Inr (r, ws) \<Rightarrow> Some ws)"

text \<open>
  The time the specification's sentence on the final record gives its sample \<open>k\<close>: the
  line through the last two record timestamps \<open>t_prev\<close> and \<open>t_last\<close>, 512 samples
  apart, continued past \<open>t_last\<close>, truncated to whole microseconds.
\<close>

definition extrapolated_by_spec :: "int \<Rightarrow> int \<Rightarrow> nat \<Rightarrow> int" where
  "extrapolated_by_spec t_prev t_last k = t_last + (t_last - t_prev) * int k div 512"

text \<open>What the header reader returns in the specification's words: the bytes with the
  null bytes at the end removed.\<close>

definition rstrip_nulls_by_spec :: "string \<Rightarrow> string" where
  "rstrip_nulls_by_spec bytes = rev (dropWhile (\<lambda>c. c = CHR 0x00) (rev bytes))"

section \<open>Properties of the consistency check\<close>

lemma np_diff_Nil: "np_diff [] = []"
  by (simp add: np_diff_def)

lemma np_diff_single: "np_diff [x] = []"
  by (simp add: np_diff_def)

lemma np_diff_Cons2: "np_diff (x # y # zs) = (y - x) # np_diff (y # zs)"
  by (simp add: np_diff_def)

lemma length_np_diff: "length (np_diff a) = length a - 1"
  by (simp add: np_diff_def)

lemma minus_one_word64_not_le_one: "\<not> (- 1 :: 64 word) \<le> 1"
  by code_simp

lemma nth_np_diff: "Suc i < length a \<Longrightarrow> np_diff a ! i = a ! Suc i - a ! i"
  by (simp add: np_diff_def nth_tl)

text \<open>On two or more records the check returns a boolean with at most one warning, and
  the boolean is true exactly when nothing was warned.\<close>

theorem check_ncs_records_total:
  assumes "2 \<le> length records"
  shows "\<exists>ok ws. check_ncs_records records = Inr (ok, ws) \<and> (ok = (ws = [])) \<and> length ws \<le> 1"
proof -
  have "length (np_diff (map TimeStamp records)) \<noteq> 0"
    using assms by (simp add: length_np_diff)
  then obtain d ds where "np_diff (map TimeStamp records) = d # ds"
    by (cases "np_diff (map TimeStamp records)") auto
  then show ?thesis
    by (simp add: check_ncs_records_def Let_def)
qed

theorem check_ncs_records_total_witness:
  "\<exists>ok ws. check_ncs_records [full_record 0, full_record 7] = Inr (ok, ws) \<and>
     (ok = (ws = [])) \<and> length ws \<le> 1"
  using check_ncs_records_total [of "[full_record 0, full_record 7]"] by simp

text \<open>
  What the check accepts on two or more records: constant channel, constant rate, 512
  valid samples everywhere, and every gap between consecutive timestamps equal to the
  first gap or one microsecond longer, all differences taken in \<open>uint64\<close>.
\<close>

theorem check_ncs_records_passes_iff:
  assumes "2 \<le> length records"
  shows "(check_ncs_records records = Inr (True, [])) =
     (list_all (\<lambda>r. ChannelNumber r = ChannelNumber (hd records)) records \<and>
      list_all (\<lambda>r. SampleFreq r = SampleFreq (hd records)) records \<and>
      list_all (\<lambda>r. NumValidSamples r = 512) records \<and>
      list_all (\<lambda>i. (TimeStamp (records ! Suc i) - TimeStamp (records ! i)) -
                     (TimeStamp (records ! 1) - TimeStamp (records ! 0)) \<le> 1)
        [0..<length records - 1])"
proof -
  let ?ts = "map TimeStamp records"
  let ?dt0 = "TimeStamp (records ! 1) - TimeStamp (records ! 0)"
  have len: "length (np_diff ?ts) = length records - 1" by (simp add: length_np_diff)
  then obtain d ds where dd: "np_diff ?ts = d # ds"
    using assms by (cases "np_diff ?ts") auto
  have "d = np_diff ?ts ! 0" by (simp add: dd)
  also have "\<dots> = ?dt0"
  proof -
    have "0 < length records" "Suc 0 < length records" using assms by auto
    then show ?thesis by (simp add: nth_np_diff)
  qed
  finally have d: "d = ?dt0" .
  have "list_all (\<lambda>x. x \<le> 1) (map (\<lambda>x. np_abs (x - d)) (np_diff ?ts)) =
      (\<forall>i<length records - 1. np_diff ?ts ! i - d \<le> 1)"
    by (simp add: list_all_length len np_abs_def)
  also have "\<dots> = (\<forall>i<length records - 1.
      (TimeStamp (records ! Suc i) - TimeStamp (records ! i)) - ?dt0 \<le> 1)"
    by (auto simp: nth_np_diff d)
  also have "\<dots> = list_all (\<lambda>i. (TimeStamp (records ! Suc i) - TimeStamp (records ! i)) -
                     ?dt0 \<le> 1) [0..<length records - 1]"
    by (auto simp add: list_all_iff)
  finally have tol: "list_all (\<lambda>x. x \<le> 1) (map (\<lambda>x. np_abs (x - d)) (np_diff ?ts)) =
      list_all (\<lambda>i. (TimeStamp (records ! Suc i) - TimeStamp (records ! i)) - ?dt0 \<le> 1)
        [0..<length records - 1]" .
  show ?thesis
    unfolding check_ncs_records_def Let_def dd list.case tol [unfolded dd]
    by auto
qed

theorem check_ncs_records_passes_iff_witness:
  "check_ncs_records [full_record 1000, full_record 2000, full_record 3001] = Inr (True, [])"
proof -
  have "(2000 - 1000 - (2000 - 1000) :: 64 word) \<le> 1" by simp
  moreover have "(3001 - 2000 - (2000 - 1000) :: 64 word) \<le> 1" by simp
  ultimately show ?thesis
    using check_ncs_records_passes_iff [of "[full_record 1000, full_record 2000, full_record 3001]"]
    by (simp add: full_record_def upt_rec)
qed

text \<open>
  C1. On the timestamps 1000, 2000, 2999 (gaps 1000 and 999, one microsecond apart)
  with constant channel, constant rate and 512 valid samples everywhere, the condition
  of the specification holds, and the function returns false with the tolerance
  warning: the second gap minus the first is computed in \<open>uint64\<close>, wraps around to
  \<open>2^64 - 1\<close>, and \<open>np.abs\<close> leaves it there.
\<close>

theorem check_ncs_records_gap_one_shorter:
  "check_ncs_records [full_record 1000, full_record 2000, full_record 2999] =
     Inr (False, [''Time stamp difference tolerance exceeded'']) \<and>
   consistent_by_spec [full_record 1000, full_record 2000, full_record 2999]"
  by (simp add: check_ncs_records_def consistent_by_spec_def timestamp_gap_def
      np_diff_Cons2 np_diff_single np_abs_def full_record_def upt_rec
      minus_one_word64_not_le_one)

text \<open>
  C2. On an empty sequence and on a sequence of one record the function raises
  \<open>IndexError\<close>: the difference array is empty and \<open>dt[0]\<close> is read before anything
  else.
\<close>

theorem check_ncs_records_short_raises:
  "check_ncs_records [] = Inl IndexError \<and> check_ncs_records [r] = Inl IndexError"
  by (simp add: check_ncs_records_def np_diff_Nil np_diff_single)

section \<open>Properties of the string operations\<close>

lemma split_on_line:
  "CHR 0x0D \<notin> set l \<Longrightarrow> split_on CRLF (l @ CRLF @ r) = l # split_on CRLF r"
proof (induction l)
  case Nil
  show ?case by (simp add: CRLF_def)
next
  case (Cons c l)
  then have "c \<noteq> CHR 0x0D" by auto
  then have "\<not> prefix CRLF ((c # l) @ CRLF @ r)" by (simp add: CRLF_def)
  with Cons show ?case by simp
qed

lemma split_on_header_text:
  "\<forall>l\<in>set ls. CHR 0x0D \<notin> set l \<Longrightarrow> split_on CRLF (header_text ls) = ls @ [[]]"
proof (induction ls)
  case Nil
  show ?case by (simp add: header_text_def)
next
  case (Cons l ls)
  have "header_text (l # ls) = l @ CRLF @ header_text ls" by (simp add: header_text_def)
  with Cons show ?case by (simp add: split_on_line)
qed

lemma strip_with_id:
  assumes "s \<noteq> []" "\<not> P (hd s)" "\<not> P (last s)"
  shows "strip_with P s = s"
proof -
  from assms have "dropWhile P s = s" by (cases s) auto
  moreover from assms have "dropWhile P (rev s) = rev s"
    by (cases "rev s") (auto simp: hd_rev)
  ultimately show ?thesis by (simp add: strip_with_def)
qed

lemma py_split_Nil: "py_split [] = []"
  by (simp add: py_split.simps)

lemma py_split_space: "is_space c \<Longrightarrow> py_split (c # s) = py_split s"
  by (simp add: py_split.simps [of "c # s"] py_split.simps [of s])

lemma py_split_token:
  assumes "is_token t" and "r = [] \<or> is_space (hd r)"
  shows "py_split (t @ r) = t # py_split r"
proof -
  from assms(1) obtain c cs where t: "t = c # cs" and c: "\<not> is_space c"
    and cs: "\<forall>x\<in>set cs. \<not> is_space x"
    by (cases t) (auto simp: is_token_def list_all_iff)
  have tk: "takeWhile (\<lambda>x. \<not> is_space x) (cs @ r) = cs"
    using cs assms(2) by (cases r) (auto simp: takeWhile_append2)
  have dr: "dropWhile (\<lambda>x. \<not> is_space x) (cs @ r) = r"
    using cs assms(2) by (cases r) (auto simp: dropWhile_append2)
  have "py_split ((c # cs) @ r) = (c # cs) # py_split r"
    by (subst py_split.simps) (simp add: c tk dr)
  then show ?thesis by (simp add: t)
qed

lemma py_split_pair:
  assumes "is_token n" "is_token v"
  shows "py_split (n @ '' '' @ v) = [n, v]"
proof -
  have sp: "is_space CHR '' ''" by (simp add: is_space_def)
  have "py_split (n @ '' '' @ v) = n # py_split ('' '' @ v)"
    using assms(1) sp by (intro py_split_token) auto
  also have "py_split ('' '' @ v) = py_split v" using sp by (simp add: py_split_space)
  also have "py_split v = [v]"
    using py_split_token [OF assms(2), of "[]"] by (simp add: py_split_Nil)
  finally show ?thesis .
qed

section \<open>Properties of the header parser\<close>

lemma py_strip_param_line:
  assumes "is_token n" "is_token v"
  shows "py_strip (param_line (n, v)) = param_line (n, v)"
proof -
  have "\<not> is_space CHR ''-''" by (simp add: is_space_def)
  moreover have "\<not> is_space (last (param_line (n, v)))"
    using assms(2) by (auto simp: param_line_def is_token_def list_all_iff)
  ultimately show ?thesis
    unfolding py_strip_def by (intro strip_with_id) (auto simp: param_line_def)
qed

lemma header_lines_text:
  assumes "\<forall>l\<in>set ls. l \<noteq> [] \<and> CHR 0x0D \<notin> set l"
  shows "header_lines (header_text ls) = map py_strip ls"
proof -
  have "filter (\<lambda>line. line \<noteq> []) (ls @ [[]]) = ls"
    using assms by (simp add: filter_id_conv)
  then show ?thesis
    using assms by (simp add: header_lines_def split_on_header_text)
qed

lemma param_line_no_CR:
  assumes "is_token (fst p)" "is_token (snd p)"
  shows "param_line p \<noteq> [] \<and> CHR 0x0D \<notin> set (param_line p)"
proof -
  have "is_space (CHR 0x0D)" by (simp add: is_space_def)
  then show ?thesis
    using assms by (auto simp: param_line_def is_token_def list_all_iff)
qed

lemma parse_params_valid:
  assumes "\<forall>p\<in>set ps. is_token (fst p) \<and> is_token (snd p)"
  shows "parse_params (map param_line ps) (hdr, ws) =
         (fold (\<lambda>p h. dict_set h (fst p) (Str (snd p))) ps hdr, ws)"
  using assms
proof (induction ps arbitrary: hdr)
  case Nil
  show ?case by simp
next
  case (Cons p ps)
  then have "py_split (drop 1 (param_line p)) = [fst p, snd p]"
    using py_split_pair [of "fst p" "snd p"] by (simp add: param_line_def)
  with Cons show ?case by simp
qed

lemma map_of_fold_dict_set:
  "map_of (fold (\<lambda>p h. dict_set h (fst p) (Str (snd p))) ps hdr) =
   fold (\<lambda>p m. m(fst p \<mapsto> Str (snd p))) ps (map_of hdr)"
  by (induction ps arbitrary: hdr) (simp_all add: dict_set_def update_conv')

lemma fold_upd_distinct:
  "distinct (map fst ps) \<Longrightarrow>
   fold (\<lambda>p m. m(fst p \<mapsto> Str (snd p))) ps m = m ++ map_of (map (\<lambda>p. (fst p, Str (snd p))) ps)"
proof (induction ps arbitrary: m)
  case Nil
  show ?case by simp
next
  case (Cons p ps)
  let ?f = "\<lambda>p m. m(fst p \<mapsto> Str (snd p))"
  let ?g = "map_of (map (\<lambda>p. (fst p, Str (snd p))) ps)"
  have "dom ?g = set (map fst ps)"
    by (simp add: dom_map_of_conv_image_fst image_image)
  with Cons.prems have notin: "fst p \<notin> dom ?g" by simp
  have "fold ?f (p # ps) m = fold ?f ps (?f p m)"
    by (simp only: fold_simps)
  also have "\<dots> = ?f p m ++ ?g"
    using Cons.prems by (intro Cons.IH) simp
  also have "\<dots> = m ++ ?g(fst p \<mapsto> Str (snd p))"
    using notin by (auto simp: map_add_def fun_eq_iff split: option.splits)
  also have "?g(fst p \<mapsto> Str (snd p)) = map_of (map (\<lambda>p. (fst p, Str (snd p))) (p # ps))"
    by simp
  finally show ?case .
qed

lemma parse_header_more_lines:
  assumes "parse_header raw = Inr (hdr0, ws0)"
    and "header_lines raw = [a, b, c, d]"
    and "header_lines raw' = [a, b, c, d] @ rest"
  shows "parse_header raw' = Inr (parse_params rest (hdr0, ws0))"
  using assms
  by (auto simp: parse_header_def Let_def split: sum.splits option.splits prod.splits if_splits)

lemma dom_dict_set: "dom (map_of (dict_set h k v)) = insert k (dom (map_of h))"
  by (simp add: dict_set_def update_conv')

lemma parse_header_four_lines_keys:
  assumes "parse_header raw = Inr (hdr0, ws0)" and "header_lines raw = [a, b, c, d]"
  shows "dom (map_of hdr0) \<subseteq> set reserved_keys"
  using assms
  by (auto simp: parse_header_def Let_def reserved_keys_def dict_set_def update_conv'
      split: sum.splits option.splits prod.splits if_splits)

text \<open>
  C9. A header text of four leading lines (none empty, none with a carriage return)
  that parse on their own to the dictionary \<open>hdr0\<close>, followed by the lines
  \<open>-NAME VALUE\<close> of any list of parameters with single tokens and distinct names:
  \<open>parse_header\<close> returns, with no further warning, the dictionary whose lookup is
  \<open>hdr0\<close> overridden by exactly the parameter mapping, and \<open>hdr0\<close> holds reserved keys
  only. The lookup of a list with distinct names does not depend on its order.
\<close>

theorem parse_header_roundtrip:
  assumes "length pre = 4"
    and "\<forall>l\<in>set pre. l \<noteq> [] \<and> CHR 0x0D \<notin> set l"
    and "parse_header (header_text pre) = Inr (hdr0, ws0)"
    and "\<forall>p\<in>set params. is_token (fst p) \<and> is_token (snd p)"
    and "distinct (map fst params)"
  shows "\<exists>hdr. parse_header (header_text (pre @ map param_line params)) = Inr (hdr, ws0) \<and>
           map_of hdr = map_of hdr0 ++ map_of (map (\<lambda>p. (fst p, Str (snd p))) params) \<and>
           dom (map_of hdr0) \<subseteq> set reserved_keys"
proof -
  from assms(1) obtain l0 l1 l2 l3 where pre: "pre = [l0, l1, l2, l3]"
    by (auto simp: length_Suc_conv numeral_eq_Suc)
  have l0: "header_lines (header_text pre) = [py_strip l0, py_strip l1, py_strip l2, py_strip l3]"
    using assms(2) by (simp add: header_lines_text pre)
  have "\<forall>l\<in>set (pre @ map param_line params). l \<noteq> [] \<and> CHR 0x0D \<notin> set l"
    using assms(2,4) param_line_no_CR by auto
  then have "header_lines (header_text (pre @ map param_line params)) =
      map py_strip (pre @ map param_line params)"
    by (rule header_lines_text)
  also have "\<dots> = [py_strip l0, py_strip l1, py_strip l2, py_strip l3] @ map param_line params"
    using assms(4) by (auto simp: pre py_strip_param_line)
  finally have l1: "header_lines (header_text (pre @ map param_line params)) =
      [py_strip l0, py_strip l1, py_strip l2, py_strip l3] @ map param_line params" .
  have "parse_header (header_text (pre @ map param_line params)) =
      Inr (parse_params (map param_line params) (hdr0, ws0))"
    by (rule parse_header_more_lines [OF assms(3) l0 l1])
  moreover have "dom (map_of hdr0) \<subseteq> set reserved_keys"
    by (rule parse_header_four_lines_keys [OF assms(3) l0])
  ultimately show ?thesis
    using assms(4,5)
    by (simp add: parse_params_valid map_of_fold_dict_set fold_upd_distinct)
qed

lemma parse_header_example_pre:
  "parse_header (header_text (take 4 example_lines)) = Inr (take 5 example_header, [])"
  by code_simp

theorem parse_header_roundtrip_witness:
  "\<exists>hdr. parse_header (header_text example_lines) = Inr (hdr, []) \<and>
     map_of hdr = map_of (take 5 example_header) ++
       map_of (map (\<lambda>p. (fst p, Str (snd p)))
         [(''ADBitVolts'', ''0.5''), (''SamplingFrequency'', ''32000'')]) \<and>
     dom (map_of (take 5 example_header)) \<subseteq> set reserved_keys"
proof -
  let ?pre = "take 4 example_lines"
  let ?params = "[(''ADBitVolts'', ''0.5''), (''SamplingFrequency'', ''32000'')]"
  have 1: "length ?pre = 4" by (simp add: example_lines_def)
  have 2: "\<forall>l\<in>set ?pre. l \<noteq> [] \<and> CHR 0x0D \<notin> set l"
    by (simp add: example_lines_def banner_def)
  have 4: "\<forall>p\<in>set ?params. is_token (fst p) \<and> is_token (snd p)"
    by (simp add: is_token_def is_space_def)
  have 5: "distinct (map fst ?params)" by simp
  have eq: "?pre @ map param_line ?params = example_lines"
    by (simp add: example_lines_def param_line_def)
  show ?thesis
    using parse_header_roundtrip [OF 1 2 parse_header_example_pre 4 5] unfolding eq .
qed

text \<open>
  C5. An empty raw header (what \<open>read_header\<close> returns for a header region of null
  bytes) and a header of three lines make \<open>parse_header\<close> raise \<open>IndexError\<close>; a
  time line whose month is 13 makes it raise the \<open>ValueError\<close> of the \<open>datetime\<close>
  constructor.
\<close>

theorem parse_header_raises:
  "parse_header [] = Inl IndexError \<and>
   parse_header (header_text [banner, ''## File Name C:/data/CSC1.ncs'', ''## Time Opened'']) =
     Inl IndexError \<and>
   parse_header (header_text [banner, ''## File Name C:/data/CSC1.ncs'',
     ''## Time Opened (m/d/y): 13/25/2020  (h:m:s.ms) 13:45:30.500'',
     ''## Time Closed (m/d/y): 12/25/2020  (h:m:s.ms) 14:0:0.0'']) = Inl ValueError"
  by code_simp

section \<open>Properties of the time-string parser\<close>

lemma date_fields_example:
  "those (map py_int (split_on ''/'' ''12/25/2020'')) = Some [12, 25, 2020]"
  by code_simp

lemma time_fields_example:
  "those (map py_int (split_on '':'' (py_replace CHR ''.'' CHR '':'' ''13:45:30.500''))) =
     Some [13, 45, 30, 500]"
  by code_simp

lemma datetime_new_example:
  "datetime_new 2020 12 25 13 45 30 500000 =
     Inr \<lparr>year = 2020, month = 12, day = 25, hour = 13, minute = 45, second = 30,
          microsecond = 500000\<rparr>"
  by (simp add: datetime_new_def c_int_def days_in_month_def)

text \<open>The positive half of C10, for every time line: token 4 is \<open>12/25/2020\<close> and
  the last token is \<open>13:45:30.500\<close>.\<close>

theorem parse_neuralynx_time_string_example:
  assumes "nth_opt (py_split time_string) 4 = Some ''12/25/2020''"
    and "last_opt (py_split time_string) = Some ''13:45:30.500''"
  shows "parse_neuralynx_time_string time_string =
     Inr (Some \<lparr>year = 2020, month = 12, day = 25, hour = 13, minute = 45, second = 30,
                microsecond = 500000\<rparr>, [])"
proof -
  have "parse_time_fields time_string = Some ([12, 25, 2020], [13, 45, 30, 500], 500000)"
    by (simp only: parse_time_fields_def assms option.case date_fields_example
        time_fields_example)
      (simp add: nth_opt_def)
  then show ?thesis
    by (simp add: parse_neuralynx_time_string_def datetime_new_example)
qed

text \<open>
  C10. A time line with month 13 (an out-of-range field) and a time line whose date
  has two fields only: the \<open>try\<close> block succeeds on both, and the \<open>datetime\<close>
  construction in the \<open>else\<close> branch raises \<open>ValueError\<close> and \<open>IndexError\<close>. A line
  with too few tokens is the case the \<open>except\<close> branch does catch.
\<close>

theorem parse_neuralynx_time_string_raises:
  "parse_neuralynx_time_string
     ''## Time Opened (m/d/y): 13/25/2020  (h:m:s.ms) 13:45:30.500'' = Inl ValueError \<and>
   parse_neuralynx_time_string
     ''## Time Opened (m/d/y): 12/25  (h:m:s.ms) 13:45:30.500'' = Inl IndexError \<and>
   parse_neuralynx_time_string ''## Time Opened'' =
     Inr (None, [''Unable to parse time string from Neuralynx header: ## Time Opened''])"
  by code_simp

section \<open>Properties of the header reader\<close>

lemma read_header_eq:
  "read_header fid =
     (if seekable fid
      then Inr (bytes_strip [CHR 0x00] (take HEADER_LENGTH (content fid)), fid)
      else Inl IOError)"
  by (simp add: read_header_def fid_tell_def fid_seek_def fid_read_def Let_def)

lemma strip_with_decompose:
  "\<exists>a b. s = a @ strip_with P s @ b \<and> list_all P a \<and> list_all P b"
proof -
  let ?t = "dropWhile P s"
  have 1: "s = takeWhile P s @ ?t" by simp
  have "rev ?t = takeWhile P (rev ?t) @ dropWhile P (rev ?t)" by simp
  then have 2: "?t = strip_with P s @ rev (takeWhile P (rev ?t))"
    unfolding strip_with_def by (metis rev_append rev_rev_ident)
  have "s = takeWhile P s @ strip_with P s @ rev (takeWhile P (rev ?t))"
    using 1 2 by metis
  moreover have "list_all P (takeWhile P s)"
    by (simp add: list_all_iff) (metis set_takeWhileD)
  moreover have "list_all P (rev (takeWhile P (rev ?t)))"
    by (simp add: list_all_iff) (metis set_takeWhileD)
  ultimately show ?thesis by blast
qed

lemma strip_with_ends:
  assumes "strip_with P s \<noteq> []"
  shows "\<not> P (hd (strip_with P s)) \<and> \<not> P (last (strip_with P s))"
proof -
  let ?t = "dropWhile P s"
  let ?u = "dropWhile P (rev ?t)"
  from assms have u: "?u \<noteq> []" by (simp add: strip_with_def)
  then have "\<not> P (hd ?u)" by (rule hd_dropWhile)
  then have l: "\<not> P (last (strip_with P s))"
    using u by (simp add: strip_with_def last_rev)
  have t: "?t \<noteq> []"
  proof
    assume "?t = []"
    then have "?u = []" by (simp only: rev.simps dropWhile.simps)
    with u show False by simp
  qed
  then have nt: "\<not> P (hd ?t)" by (rule hd_dropWhile)
  have "rev ?t = takeWhile P (rev ?t) @ ?u" by simp
  then have "?t = rev ?u @ rev (takeWhile P (rev ?t))"
    by (metis rev_append rev_rev_ident)
  then have "hd ?t = hd (rev ?u)" using u by (metis hd_append2 rev_is_Nil_conv)
  with nt have "\<not> P (hd (strip_with P s))" by (simp add: strip_with_def)
  with l show ?thesis by simp
qed

section \<open>Properties of the record decoder\<close>

lemma np_fromfile_all:
  assumes "0 < itemsize dt" and "fpos fid \<le> length (content fid)"
  shows "np_fromfile fid dt (- 1) =
     Inr (map (\<lambda>i. decode dt (take (itemsize dt)
                 (drop (fpos fid + i * itemsize dt) (content fid))))
            [0..<(length (content fid) - fpos fid) div itemsize dt],
          fid\<lparr>fpos := fpos fid +
            (length (content fid) - fpos fid) div itemsize dt * itemsize dt\<rparr>)"
proof -
  define a where "a = int (length (content fid)) - int (fpos fid)"
  define s where "s = int (itemsize dt)"
  have a0: "0 \<le> a" using assms(2) by (simp add: a_def)
  have s0: "0 < s" using assms(1) by (simp add: s_def)
  have "a = int (length (content fid) - fpos fid)"
    using assms(2) by (simp add: a_def)
  then have "a div s = int ((length (content fid) - fpos fid) div itemsize dt)"
    by (simp only: s_def zdiv_int)
  then have f4: "nat (a div s) = (length (content fid) - fpos fid) div itemsize dt"
    by simp
  have "0 \<le> a div s" using a0 s0 by (simp only: pos_imp_zdiv_nonneg_iff)
  then have f5: "\<not> a div s < 0" by linarith
  have f1: "sgn a * (\<bar>a\<bar> div s) = a div s"
    using a0 by (cases "a = 0") (simp_all add: sgn_if)
  have f2: "max a 0 = a" using a0 by simp
  have f6: "s \<noteq> 0" using s0 by simp
  show ?thesis
    unfolding np_fromfile_def Let_def a_def [symmetric] s_def [symmetric]
    by (simp add: f1 f2 f4 f5 f6)
qed

lemma read_records_all:
  assumes "seekable fid" and "0 < itemsize dt" and "HEADER_LENGTH \<le> length (content fid)"
  shows "read_records fid dt 0 None =
     Inr (map (\<lambda>i. decode dt (take (itemsize dt)
                 (drop (HEADER_LENGTH + i * itemsize dt) (content fid))))
            [0..<(length (content fid) - HEADER_LENGTH) div itemsize dt],
          fid)"
proof -
  have "np_fromfile (fid\<lparr>fpos := HEADER_LENGTH\<rparr>) dt (- 1) =
      Inr (map (\<lambda>i. decode dt (take (itemsize dt)
                 (drop (HEADER_LENGTH + i * itemsize dt) (content fid))))
            [0..<(length (content fid) - HEADER_LENGTH) div itemsize dt],
           fid\<lparr>fpos := HEADER_LENGTH +
             (length (content fid) - HEADER_LENGTH) div itemsize dt * itemsize dt\<rparr>)"
    using np_fromfile_all [of dt "fid\<lparr>fpos := HEADER_LENGTH\<rparr>"] assms(2,3) by simp
  then show ?thesis
    using assms(1)
    by (simp add: read_records_def fid_tell_def fid_seek_def Let_def)
qed

lemma itemsize_NCS_RECORD: "itemsize NCS_RECORD = 1044"
  by (simp add: NCS_RECORD_def NCS_SAMPLES_PER_RECORD_def)

lemma decode_NCS_RECORD: "decode NCS_RECORD = decode_ncs"
  by (simp add: NCS_RECORD_def)

lemma length_Samples_decode_ncs: "length (Samples (decode_ncs b)) = 512"
  by (simp add: decode_ncs_def NCS_SAMPLES_PER_RECORD_def)

lemma chunk_within_body:
  assumes "i < N"
  shows "take sz (drop (h + i * sz) bytes) =
         take sz (drop (i * sz) (take (N * sz) (drop h bytes)))"
proof -
  have "i * sz + sz \<le> N * sz"
    using assms by (metis Suc_leI mult_Suc mult_le_mono1 add.commute)
  then have "take sz (drop (i * sz) (take (N * sz) (drop h bytes))) =
      take sz (drop (i * sz) (drop h bytes))"
    by (simp add: drop_take min_def)
  then show ?thesis by (simp add: add.commute)
qed

text \<open>
  C7 (amended). For a seekable source of \<open>16384 + N * 1044 + k\<close> bytes with
  \<open>k < 1044\<close>, \<open>read_records\<close> returns exactly \<open>N\<close> records and the source unchanged
  (position restored). Record \<open>i\<close> is decoded from the bytes \<open>i * 1044\<close> to
  \<open>(i + 1) * 1044\<close> of the first \<open>N * 1044\<close> bytes after the header, so the \<open>k\<close>
  trailing bytes are never part of a record. The function has no warning to emit.
\<close>

theorem read_records_truncates:
  assumes "seekable fid"
    and "length (content fid) = HEADER_LENGTH + N * 1044 + k"
    and "k < 1044"
  shows "read_records fid NCS_RECORD 0 None =
     Inr (map (\<lambda>i. decode_ncs (take 1044 (drop (i * 1044)
                 (take (N * 1044) (drop HEADER_LENGTH (content fid))))))
            [0..<N],
          fid)"
proof -
  have N: "(length (content fid) - HEADER_LENGTH) div 1044 = N"
    using assms(2,3) by simp
  have h: "HEADER_LENGTH \<le> length (content fid)"
    using assms(2) by simp
  have "read_records fid NCS_RECORD 0 None =
     Inr (map (\<lambda>i. decode_ncs (take 1044 (drop (HEADER_LENGTH + i * 1044) (content fid))))
            [0..<N], fid)"
    using read_records_all [OF assms(1) _ h, of NCS_RECORD]
    by (simp only: itemsize_NCS_RECORD decode_NCS_RECORD N)
  moreover have "map (\<lambda>i. decode_ncs (take 1044 (drop (HEADER_LENGTH + i * 1044) (content fid))))
            [0..<N] =
      map (\<lambda>i. decode_ncs (take 1044 (drop (i * 1044)
                 (take (N * 1044) (drop HEADER_LENGTH (content fid)))))) [0..<N]"
    by (rule map_cong) (simp_all add: chunk_within_body)
  ultimately show ?thesis by simp
qed

section \<open>The example file\<close>

lemma dropWhile_replicate_append:
  "P z \<Longrightarrow> dropWhile P (replicate n z @ ys) = dropWhile P ys"
  by (induction n) simp_all

lemma strip_with_padding:
  assumes "s \<noteq> []" "\<not> P (hd s)" "\<not> P (last s)" "P z"
  shows "strip_with P (s @ replicate n z) = s"
proof -
  have 1: "dropWhile P (s @ replicate n z) = s @ replicate n z"
    using assms(1,2) by (cases s) auto
  have "dropWhile P (rev s) = rev s"
    using assms(1,3) by (cases "rev s") (auto simp: hd_rev)
  then have 2: "dropWhile P (replicate n z @ rev s) = rev s"
    using assms(4) by (simp add: dropWhile_replicate_append)
  show ?thesis by (simp add: strip_with_def 1 2)
qed

lemma length_header_text_example: "length (header_text example_lines) = 229"
  by (simp add: header_text_def example_lines_def banner_def CRLF_def)

lemma length_example_record_bytes: "length (example_record_bytes t0 t1) = 1044"
  by (simp add: example_record_bytes_def)

lemma length_example_file: "length example_file = HEADER_LENGTH + 2 * 1044 + 17"
  by (simp add: example_file_def length_header_text_example length_example_record_bytes
      HEADER_LENGTH_def)

lemma take_header_example_file:
  "take HEADER_LENGTH example_file =
     header_text example_lines @ replicate (HEADER_LENGTH - 229) (CHR 0x00)"
  by (simp add: example_file_def length_header_text_example HEADER_LENGTH_def)

lemma drop_header_example_file:
  "drop HEADER_LENGTH example_file =
     example_record_bytes (CHR 0xE8) (CHR 0x03) @
     example_record_bytes (CHR 0xD0) (CHR 0x07) @ replicate 17 (CHR 0xFF)"
  by (simp add: example_file_def length_header_text_example HEADER_LENGTH_def)

lemma header_text_example_ends:
  "header_text example_lines \<noteq> [] \<and> hd (header_text example_lines) = CHR ''#'' \<and>
   last (header_text example_lines) = CHR 0x0A"
  by (simp add: header_text_def example_lines_def banner_def CRLF_def)

lemma read_header_example:
  "read_header \<lparr>content = example_file, fpos = 0, seekable = True\<rparr> =
     Inr (header_text example_lines, \<lparr>content = example_file, fpos = 0, seekable = True\<rparr>)"
proof -
  have "bytes_strip [CHR 0x00] (take HEADER_LENGTH example_file) = header_text example_lines"
    unfolding take_header_example_file bytes_strip_def
    by (rule strip_with_padding) (simp_all add: header_text_example_ends)
  then show ?thesis by (simp add: read_header_eq)
qed

lemma le_word_zeros: "le_word (replicate n (CHR 0x00)) = 0"
  by (induction n) (simp_all add: le_word_def)

lemma decode_example_record_bytes:
  "decode_ncs (example_record_bytes t0 t1) =
     full_record (of_nat (of_char t0) + 256 * of_nat (of_char t1))"
proof -
  have "map (\<lambda>i. le_word (take 2 (drop (20 + 2 * i) (example_record_bytes t0 t1)))) [0..<512] =
        map (\<lambda>i. 0 :: 16 word) [0..<512]"
  proof (rule map_cong [OF refl])
    fix i assume "i \<in> set [0..<512]"
    then have i: "i < 512" by simp
    obtain pre where pre: "example_record_bytes t0 t1 = pre @ replicate 1024 (CHR 0x00)"
      and len: "length pre = 20"
      by (simp add: example_record_bytes_def)
    have "take 2 (drop (20 + 2 * i) (example_record_bytes t0 t1)) =
        replicate 2 (CHR 0x00)"
      using i unfolding pre by (simp add: len min_def)
    then show "le_word (take 2 (drop (20 + 2 * i) (example_record_bytes t0 t1))) = (0 :: 16 word)"
      by (simp only: le_word_zeros)
  qed
  then have s: "map (\<lambda>i. le_word (take 2 (drop (20 + 2 * i) (example_record_bytes t0 t1))))
      [0..<512] = replicate 512 (0 :: 16 word)"
    by (simp add: map_replicate_const)
  show ?thesis
    unfolding decode_ncs_def full_record_def NCS_SAMPLES_PER_RECORD_def s
    by (simp add: example_record_bytes_def le_word_def)
qed

lemma read_records_example:
  "read_records \<lparr>content = example_file, fpos = 0, seekable = True\<rparr> NCS_RECORD 0 None =
     Inr ([full_record 1000, full_record 2000],
          \<lparr>content = example_file, fpos = 0, seekable = True\<rparr>)"
proof -
  let ?fid = "\<lparr>content = example_file, fpos = 0, seekable = True\<rparr>"
  have h: "HEADER_LENGTH \<le> length (content ?fid)" by (simp add: length_example_file)
  have n: "(length example_file - HEADER_LENGTH) div 1044 = 2"
    by (simp add: length_example_file)
  have c0: "take 1044 (drop (HEADER_LENGTH + 0 * 1044) example_file) =
      example_record_bytes (CHR 0xE8) (CHR 0x03)"
    by (simp add: drop_header_example_file length_example_record_bytes)
  have "drop (HEADER_LENGTH + 1 * 1044) example_file = drop 1044 (drop HEADER_LENGTH example_file)"
    by (simp add: add.commute)
  then have c1: "take 1044 (drop (HEADER_LENGTH + 1 * 1044) example_file) =
      example_record_bytes (CHR 0xD0) (CHR 0x07)"
    by (simp only: drop_header_example_file) (simp add: length_example_record_bytes)
  have u: "[0..<2] = [0, 1]" by (simp add: upt_rec)
  have "read_records ?fid NCS_RECORD 0 None =
     Inr (map (\<lambda>i. decode_ncs (take 1044 (drop (HEADER_LENGTH + i * 1044) example_file)))
            [0..<2], ?fid)"
    using read_records_all [of ?fid NCS_RECORD, OF _ _ h]
    by (simp add: itemsize_NCS_RECORD decode_NCS_RECORD n)
  also have "map (\<lambda>i. decode_ncs (take 1044 (drop (HEADER_LENGTH + i * 1044) example_file)))
            [0..<2] =
     [decode_ncs (example_record_bytes (CHR 0xE8) (CHR 0x03)),
      decode_ncs (example_record_bytes (CHR 0xD0) (CHR 0x07))]"
    unfolding u using c0 c1 by simp
  also have "\<dots> = [full_record 1000, full_record 2000]"
    by (simp add: decode_example_record_bytes)
  finally show ?thesis .
qed

section \<open>The header reader on its inputs\<close>

text \<open>
  C4 (amended). For a seekable source of at least 16384 bytes \<open>read_header\<close> returns,
  with the source unchanged (position restored), the first 16384 bytes without the
  null bytes at both ends: the first 16384 bytes are a run of null bytes, the result,
  and a run of null bytes, and a non-empty result neither starts nor ends with a null
  byte. Everything between the two runs is preserved.
\<close>

theorem read_header_strips_both_ends:
  assumes "seekable fid" and "HEADER_LENGTH \<le> length (content fid)"
  shows "\<exists>raw a b. read_header fid = Inr (raw, fid) \<and>
      take HEADER_LENGTH (content fid) = a @ raw @ b \<and>
      length (a @ raw @ b) = HEADER_LENGTH \<and>
      list_all (\<lambda>c. c = CHR 0x00) a \<and> list_all (\<lambda>c. c = CHR 0x00) b \<and>
      (raw = [] \<or> (hd raw \<noteq> CHR 0x00 \<and> last raw \<noteq> CHR 0x00))"
proof -
  let ?P = "\<lambda>c. c \<in> set [CHR 0x00]"
  let ?h = "take HEADER_LENGTH (content fid)"
  let ?raw = "bytes_strip [CHR 0x00] ?h"
  have P: "?P = (\<lambda>c. c = CHR 0x00)" by auto
  have rh: "read_header fid = Inr (?raw, fid)"
    using assms(1) by (simp add: read_header_eq)
  from strip_with_decompose [of ?h ?P] obtain a b where
    ab: "?h = a @ ?raw @ b" "list_all ?P a" "list_all ?P b"
    unfolding bytes_strip_def by blast
  have len: "length (a @ ?raw @ b) = HEADER_LENGTH"
    using assms(2) ab(1) by (metis length_take min.absorb2)
  have ends: "?raw = [] \<or> (hd ?raw \<noteq> CHR 0x00 \<and> last ?raw \<noteq> CHR 0x00)"
    using strip_with_ends [of ?P ?h] unfolding bytes_strip_def by auto
  show ?thesis
    using rh ab len ends unfolding P by blast
qed

theorem read_header_strips_both_ends_witness:
  "\<exists>raw a b. read_header \<lparr>content = example_file, fpos = 0, seekable = True\<rparr> =
        Inr (raw, \<lparr>content = example_file, fpos = 0, seekable = True\<rparr>) \<and>
      take HEADER_LENGTH example_file = a @ raw @ b \<and>
      length (a @ raw @ b) = HEADER_LENGTH \<and>
      list_all (\<lambda>c. c = CHR 0x00) a \<and> list_all (\<lambda>c. c = CHR 0x00) b \<and>
      (raw = [] \<or> (hd raw \<noteq> CHR 0x00 \<and> last raw \<noteq> CHR 0x00))"
  using read_header_strips_both_ends [of "\<lparr>content = example_file, fpos = 0, seekable = True\<rparr>"]
  by (simp add: length_example_file)

text \<open>
  The input that refutes C4 as stated: a source of 16384 bytes, a null byte followed by
  16383 letters. The leading null byte is not preserved, while stripping at the end
  only would return all 16384 bytes.
\<close>

theorem read_header_leading_null_counterexample:
  "read_header \<lparr>content = CHR 0x00 # replicate 16383 (CHR ''A''), fpos = 0, seekable = True\<rparr> =
     Inr (replicate 16383 (CHR ''A''),
          \<lparr>content = CHR 0x00 # replicate 16383 (CHR ''A''), fpos = 0, seekable = True\<rparr>) \<and>
   rstrip_nulls_by_spec (take HEADER_LENGTH (CHR 0x00 # replicate 16383 (CHR ''A''))) =
     CHR 0x00 # replicate 16383 (CHR ''A'')"
  by (simp add: read_header_eq bytes_strip_def strip_with_def rstrip_nulls_by_spec_def
      HEADER_LENGTH_def dropWhile_replicate_append [of _ _ _ "[]", simplified])

text \<open>
  C6 (amended). \<open>read_header\<close> fails exactly when the source cannot seek, and then
  with \<open>IOError\<close>. On a seekable source it returns the null-stripped bytes it could
  read, however few they are.
\<close>

theorem read_header_fails_iff_not_seekable:
  "(\<exists>e. read_header fid = Inl e) = (\<not> seekable fid) \<and>
   (\<forall>e. read_header fid = Inl e \<longrightarrow> e = IOError) \<and>
   (seekable fid \<longrightarrow>
      read_header fid = Inr (bytes_strip [CHR 0x00] (take HEADER_LENGTH (content fid)), fid))"
  by (simp add: read_header_eq)

theorem read_header_fails_iff_not_seekable_witness:
  "read_header \<lparr>content = ''abc'', fpos = 1, seekable = False\<rparr> = Inl IOError \<and>
   read_header \<lparr>content = ''abc'', fpos = 1, seekable = True\<rparr> =
     Inr (''abc'', \<lparr>content = ''abc'', fpos = 1, seekable = True\<rparr>)"
  using read_header_fails_iff_not_seekable [of "\<lparr>content = ''abc'', fpos = 1, seekable = False\<rparr>"]
    read_header_fails_iff_not_seekable [of "\<lparr>content = ''abc'', fpos = 1, seekable = True\<rparr>"]
  by (auto simp add: bytes_strip_def strip_with_def HEADER_LENGTH_def)

text \<open>The input that refutes C6 as stated: a seekable source of three bytes.\<close>

theorem read_header_short_source_counterexample:
  "length (content \<lparr>content = ''abc'', fpos = 0, seekable = True\<rparr>) < HEADER_LENGTH \<and>
   read_header \<lparr>content = ''abc'', fpos = 0, seekable = True\<rparr> =
     Inr (''abc'', \<lparr>content = ''abc'', fpos = 0, seekable = True\<rparr>)"
  by (simp add: read_header_eq bytes_strip_def strip_with_def HEADER_LENGTH_def)

section \<open>Properties of the continuous-signal assembler\<close>

lemma np_fromfile_short:
  assumes "0 < itemsize dt" and "length (content fid) < fpos fid"
  shows "np_fromfile fid dt (- 1) = Inl ValueError \<or>
         np_fromfile fid dt (- 1) = Inr ([], fid)"
proof -
  define a where "a = int (length (content fid)) - int (fpos fid)"
  define s where "s = int (itemsize dt)"
  have a0: "a < 0" using assms(2) by (simp add: a_def)
  have s0: "0 < s" using assms(1) by (simp add: s_def)
  have f2: "max a 0 = 0" using a0 by simp
  have "0 \<le> \<bar>a\<bar> div s" using s0 by (simp add: pos_imp_zdiv_nonneg_iff)
  then have f1: "sgn a * (\<bar>a\<bar> div s) \<le> 0" using a0 by (simp add: sgn_if)
  then have f3: "nat (min (sgn a * (\<bar>a\<bar> div s)) 0) = 0" by simp
  show ?thesis
    unfolding np_fromfile_def Let_def a_def [symmetric] s_def [symmetric]
    by (simp add: f2 f3)
qed

lemma read_records_short:
  assumes "seekable fid" and "0 < itemsize dt" and "length (content fid) < HEADER_LENGTH"
  shows "read_records fid dt 0 None = Inl ValueError \<or> read_records fid dt 0 None = Inr ([], fid)"
proof -
  let ?f = "fid\<lparr>fpos := HEADER_LENGTH\<rparr>"
  from np_fromfile_short [of dt ?f] assms(2,3)
  have "np_fromfile ?f dt (- 1) = Inl ValueError \<or> np_fromfile ?f dt (- 1) = Inr ([], ?f)"
    by simp
  then show ?thesis
  proof
    assume "np_fromfile ?f dt (- 1) = Inl ValueError"
    then show ?thesis
      using assms(1) by (simp add: read_records_def fid_tell_def fid_seek_def Let_def)
  next
    assume "np_fromfile ?f dt (- 1) = Inr ([], ?f)"
    then show ?thesis
      using assms(1) by (simp add: read_records_def fid_tell_def fid_seek_def Let_def)
  qed
qed

lemma check_ncs_records_Inr_length:
  "check_ncs_records records = Inr res \<Longrightarrow> 2 \<le> length records"
  by (cases records; cases "tl records")
     (auto simp: check_ncs_records_def np_diff_def split: list.splits)

text \<open>Every decoded record carries 512 sample slots, so the flattened samples of a
  list of decoded records number 512 per record.\<close>

lemma length_concat_Samples:
  "length (concat (map (\<lambda>i. Samples (decode_ncs (f i))) xs)) = 512 * length xs"
  by (induction xs) (simp_all add: length_Samples_decode_ncs)

lemma rescale_Inr:
  assumes "rescale ops hdr sc samples = Inr (d, resc, w)"
  shows "data_length d = length samples \<and>
    (case d of
       Counts xs \<Rightarrow> xs = samples
     | Scaled ys \<Rightarrow> \<exists>factor. ys = map (\<lambda>x. f64_mul ops (f64_of_int ops (sint x)) factor) samples)"
  using assms
  by (auto simp: rescale_def Let_def split: option.splits hval.splits)

lemma load_ncs_Inr:
  assumes "load_ncs ops bytes lt rs sc = Inr (r, ws)"
  shows "\<exists>recs fid' ok w2 resc w3.
      read_records \<lparr>content = bytes, fpos = 0, seekable = True\<rparr> NCS_RECORD 0 None =
        Inr (recs, fid') \<and>
      check_ncs_records recs = Inr (ok, w2) \<and>
      (if rs then rescale ops (ncs_header r) sc (concat (map Samples recs))
       else Inr (Counts (concat (map Samples recs)), False, [])) = Inr (ncs_data r, resc, w3) \<and>
      ncs_timestamp r = map TimeStamp recs \<and>
      (if lt then map_sum id Some (sample_times ops recs (data_length (ncs_data r)))
       else Inr None) = Inr (ncs_time r)"
proof -
  let ?fid = "\<lparr>content = bytes, fpos = 0, seekable = True\<rparr>"
  from assms obtain raw fid1 where 1: "read_header ?fid = Inr (raw, fid1)"
    by (auto simp: load_ncs_def Let_def split: sum.splits)
  then have f1: "fid1 = ?fid" by (simp add: read_header_eq)
  from assms 1 obtain recs fid2 where 2: "read_records fid1 NCS_RECORD 0 None = Inr (recs, fid2)"
    by (auto simp: load_ncs_def Let_def split: sum.splits)
  from assms 1 2 obtain hdr w1 where 3: "parse_header raw = Inr (hdr, w1)"
    by (auto simp: load_ncs_def Let_def split: sum.splits)
  from assms 1 2 3 obtain ok w2 where 4: "check_ncs_records recs = Inr (ok, w2)"
    by (auto simp: load_ncs_def Let_def split: sum.splits)
  let ?resc = "if rs then rescale ops hdr sc (concat (map Samples recs))
       else Inr (Counts (concat (map Samples recs)), False, [])"
  from assms 1 2 3 4 obtain drw where 5: "?resc = Inr drw"
    by (auto simp: load_ncs_def Let_def split: sum.splits)
  obtain d resc w3 where drw: "drw = (d, resc, w3)" by (cases drw)
  from check_ncs_records_Inr_length [OF 4] have ne: "recs \<noteq> []" by auto
  let ?tm = "if lt then map_sum id Some (sample_times ops recs (data_length d)) else Inr None"
  from assms have "\<exists>tp. ?tm = Inr tp"
    by (auto simp add: load_ncs_def Let_def 1 2 3 4 5 drw ne list.case_eq_if
        split: sum.splits if_splits)
  then obtain tp where 7: "?tm = Inr tp" ..
  from assms have r: "ncs_header r = hdr" "ncs_data r = d"
      "ncs_timestamp r = map TimeStamp recs" "ncs_time r = tp"
    by (auto simp add: load_ncs_def Let_def 1 2 3 4 5 drw ne 7 list.case_eq_if)
  have 5: "?resc = Inr (d, resc, w3)" using 5 drw by simp
  show ?thesis
    using 2 4 5 7 r unfolding f1 by blast
qed

lemma parse_header_example:
  "parse_header (header_text example_lines) = Inr (example_header, [])"
  by code_simp

lemma sample_times_eq:
  assumes "records \<noteq> []"
  shows "sample_times ops records (512 * length records) =
     Inr (map (\<lambda>x. f64_to_uint64 ops
                (np_interp ops (map (\<lambda>k. 512 * k) [0..<length records])
                   (map (\<lambda>r. f64_of_int ops (uint (TimeStamp r))) records) x))
            [0..<512 * length records])"
proof -
  have "(512 * length records + 511) div 512 = length records" by simp
  then show ?thesis
    using assms by (simp add: sample_times_def Let_def)
qed

lemma np_interp_last_record:
  assumes "0 < n" and "length fp = n" and "512 * (n - 1) \<le> x"
  shows "np_interp ops (map (\<lambda>k. 512 * k) [0..<n]) fp x = fp ! (n - 1)"
proof -
  let ?xp = "map (\<lambda>k. 512 * k) [0..<n]"
  have len: "length ?xp = n" by simp
  have x0: "?xp ! 0 = 0" using assms(1) by simp
  have xl: "?xp ! (n - 1) = 512 * (n - 1)" using assms(1) by simp
  show ?thesis
  proof (cases "512 * (n - 1) < x")
    case True
    then show ?thesis
      unfolding np_interp_def Let_def len x0 xl by simp
  next
    case False
    have "\<forall>v\<in>set ?xp. v \<le> x" using assms(3) by auto
    then have tw: "takeWhile (\<lambda>v. v \<le> x) ?xp = ?xp"
      by (rule takeWhile_eq_all_conv [THEN iffD2])
    have "length (takeWhile (\<lambda>v. v \<le> x) ?xp) - 1 = n - 1"
      by (simp only: tw len)
    then show ?thesis
      using False unfolding np_interp_def Let_def len x0 xl by simp
  qed
qed

lemma load_ncs_facts:
  assumes "load_ncs ops bytes lt rs sc = Inr (r, ws)"
  shows "\<exists>recs. recs = map (\<lambda>i. decode_ncs (take 1044 (drop (HEADER_LENGTH + i * 1044) bytes)))
                      [0..<(length bytes - HEADER_LENGTH) div 1044] \<and>
     2 \<le> length recs \<and>
     ncs_timestamp r = map TimeStamp recs \<and>
     data_length (ncs_data r) = 512 * length recs \<and>
     (case ncs_data r of
        Counts xs \<Rightarrow> xs = concat (map Samples recs)
      | Scaled ys \<Rightarrow>
          \<exists>factor. ys = map (\<lambda>x. f64_mul ops (f64_of_int ops (sint x)) factor)
                          (concat (map Samples recs))) \<and>
     (if lt then map_sum id Some (sample_times ops recs (512 * length recs)) else Inr None) =
       Inr (ncs_time r)"
proof -
  let ?fid = "\<lparr>content = bytes, fpos = 0, seekable = True\<rparr>"
  let ?recs = "map (\<lambda>i. decode_ncs (take 1044 (drop (HEADER_LENGTH + i * 1044) bytes)))
                      [0..<(length bytes - HEADER_LENGTH) div 1044]"
  from load_ncs_Inr [OF assms] obtain recs fid' ok w2 resc w3 where
    rr: "read_records ?fid NCS_RECORD 0 None = Inr (recs, fid')"
    and ck: "check_ncs_records recs = Inr (ok, w2)"
    and rs: "(if rs then rescale ops (ncs_header r) sc (concat (map Samples recs))
       else Inr (Counts (concat (map Samples recs)), False, [])) = Inr (ncs_data r, resc, w3)"
    and ts: "ncs_timestamp r = map TimeStamp recs"
    and tm: "(if lt then map_sum id Some (sample_times ops recs (data_length (ncs_data r)))
       else Inr None) = Inr (ncs_time r)"
    by blast
  have len2: "2 \<le> length recs" by (rule check_ncs_records_Inr_length [OF ck])
  have hl: "HEADER_LENGTH \<le> length bytes"
  proof (rule ccontr)
    assume "\<not> HEADER_LENGTH \<le> length bytes"
    then have "length (content ?fid) < HEADER_LENGTH" by simp
    from read_records_short [OF _ _ this, of NCS_RECORD] rr have "recs = []"
      by (simp add: itemsize_NCS_RECORD)
    with len2 show False by simp
  qed
  have recs: "recs = ?recs"
    using read_records_all [of ?fid NCS_RECORD] hl rr
    by (simp add: itemsize_NCS_RECORD decode_NCS_RECORD)
  have lc: "length (concat (map Samples recs)) = 512 * length recs"
    unfolding recs by (simp add: map_map comp_def length_concat_Samples)
  have dl: "data_length (ncs_data r) = 512 * length recs \<and>
     (case ncs_data r of
        Counts xs \<Rightarrow> xs = concat (map Samples recs)
      | Scaled ys \<Rightarrow>
          \<exists>factor. ys = map (\<lambda>x. f64_mul ops (f64_of_int ops (sint x)) factor)
                          (concat (map Samples recs)))"
  proof (cases rs)
    case True
    with rs have "rescale ops (ncs_header r) sc (concat (map Samples recs)) =
        Inr (ncs_data r, resc, w3)" by simp
    from rescale_Inr [OF this] lc show ?thesis by simp
  next
    case False
    with rs have "ncs_data r = Counts (concat (map Samples recs))" by simp
    with lc show ?thesis by simp
  qed
  from dl have d: "data_length (ncs_data r) = 512 * length recs" ..
  have tm': "(if lt then map_sum id Some (sample_times ops recs (512 * length recs))
       else Inr None) = Inr (ncs_time r)"
    using tm unfolding d .
  have "recs = ?recs \<and> 2 \<le> length recs \<and> ncs_timestamp r = map TimeStamp recs \<and>
     data_length (ncs_data r) = 512 * length recs \<and>
     (case ncs_data r of
        Counts xs \<Rightarrow> xs = concat (map Samples recs)
      | Scaled ys \<Rightarrow>
          \<exists>factor. ys = map (\<lambda>x. f64_mul ops (f64_of_int ops (sint x)) factor)
                          (concat (map Samples recs))) \<and>
     (if lt then map_sum id Some (sample_times ops recs (512 * length recs)) else Inr None) =
       Inr (ncs_time r)"
    using recs len2 ts dl tm' by blast
  then show ?thesis by (rule exI)
qed

lemma check_ncs_records_example:
  "check_ncs_records [full_record 1000, full_record 2000] = Inr (True, [])"
  by (simp add: check_ncs_records_def np_diff_def np_abs_def full_record_def)

lemma parse_decimal_example: "parse_decimal ''0.5'' = Some (1 / 2)"
  by code_simp

lemma full_record_sel:
  "TimeStamp (full_record t) = t" "ChannelNumber (full_record t) = 1"
  "SampleFreq (full_record t) = 32000" "Samples (full_record t) = replicate 512 0"
  by (simp_all add: full_record_def)

lemma replicate_512_twice: "replicate 512 x @ replicate 512 x = replicate 1024 x"
  by (simp add: replicate_add [symmetric])

lemma rescale_example:
  "rescale exact_ops example_header MICROVOLT_SCALING (replicate 1024 0) =
     Inr (Scaled (replicate 1024 0), True, [])"
proof -
  have "map_of example_header ''ADBitVolts'' = Some (Str ''0.5'')"
    by (simp add: example_header_def)
  then show ?thesis
    by (simp add: rescale_def parse_decimal_example exact_ops_def MICROVOLT_SCALING_def)
qed

lemma sample_times_example:
  "sample_times exact_ops [full_record 1000, full_record 2000] 1024 =
     Inr (map (\<lambda>x. f64_to_uint64 exact_ops
                (np_interp exact_ops [0, 512] [1000, 2000] x)) [0..<1024])"
proof -
  have u: "[0..<2] = [0, 1]" by (simp add: upt_rec)
  show ?thesis
    using sample_times_eq [of "[full_record 1000, full_record 2000]" exact_ops]
    by (simp add: u full_record_def exact_ops_def)
qed

lemma load_ncs_example:
  "\<exists>r. load_ncs exact_ops example_file lt rs MICROVOLT_SCALING = Inr (r, []) \<and>
     ncs_timestamp r = [1000, 2000] \<and>
     ncs_data r = (if rs then Scaled (replicate 1024 0) else Counts (replicate 1024 0)) \<and>
     ncs_time r =
       (if lt then Some (map (\<lambda>x. f64_to_uint64 exact_ops
                          (np_interp exact_ops [0, 512] [1000, 2000] x)) [0..<1024])
        else None)"
  by (simp add: load_ncs_def Let_def read_header_example read_records_example
      parse_header_example check_ncs_records_example full_record_sel replicate_512_twice
      rescale_example sample_times_example)

lemma np_interp_example_513:
  "f64_to_uint64 exact_ops (np_interp exact_ops [0, 512] [1000, 2000] 513) = 2000"
  by (simp add: np_interp_def exact_ops_def)

theorem read_records_truncates_witness:
  "read_records \<lparr>content = example_file, fpos = 0, seekable = True\<rparr> NCS_RECORD 0 None =
     Inr (map (\<lambda>i. decode_ncs (take 1044 (drop (i * 1044)
                 (take (2 * 1044) (drop HEADER_LENGTH example_file)))))
            [0..<2],
          \<lparr>content = example_file, fpos = 0, seekable = True\<rparr>)"
  using read_records_truncates [of "\<lparr>content = example_file, fpos = 0, seekable = True\<rparr>" 2 17]
  by (simp add: length_example_file)

text \<open>
  The input that refutes C7 as stated: the example file has 16384 + 2 * 1044 + 17
  bytes, and decoding it emits no warning at all.
\<close>

theorem load_ncs_no_truncation_warning_counterexample:
  "length example_file = HEADER_LENGTH + 2 * 1044 + 17 \<and>
   result_warnings (load_ncs exact_ops example_file True True MICROVOLT_SCALING) = Some []"
proof -
  from load_ncs_example [of True True] obtain r where
    "load_ncs exact_ops example_file True True MICROVOLT_SCALING = Inr (r, [])" by blast
  then show ?thesis by (simp add: result_warnings_def length_example_file)
qed

text \<open>
  C8. Whenever \<open>load_ncs\<close> returns, the records are the complete 1044-byte chunks
  after the header, in file order; the sample sequence has 512 entries per record and
  is the concatenation of all 512 slots of every record (each multiplied by the
  conversion factor when rescaling), whatever the records declare as their number of
  valid samples.
\<close>

theorem load_ncs_flattens_all_slots:
  assumes "load_ncs ops bytes lt rs sc = Inr (r, ws)"
  shows "\<exists>recs. recs = map (\<lambda>i. decode_ncs (take 1044 (drop (HEADER_LENGTH + i * 1044) bytes)))
                      [0..<(length bytes - HEADER_LENGTH) div 1044] \<and>
     ncs_timestamp r = map TimeStamp recs \<and>
     data_length (ncs_data r) = 512 * length recs \<and>
     list_all (\<lambda>x. length (Samples x) = 512) recs \<and>
     (case ncs_data r of
        Counts xs \<Rightarrow> xs = concat (map Samples recs)
      | Scaled ys \<Rightarrow>
          \<exists>factor. ys = map (\<lambda>x. f64_mul ops (f64_of_int ops (sint x)) factor)
                          (concat (map Samples recs)))"
proof -
  from load_ncs_facts [OF assms] obtain recs where
    recs: "recs = map (\<lambda>i. decode_ncs (take 1044 (drop (HEADER_LENGTH + i * 1044) bytes)))
                      [0..<(length bytes - HEADER_LENGTH) div 1044]"
    and f: "ncs_timestamp r = map TimeStamp recs"
      "data_length (ncs_data r) = 512 * length recs"
      "(case ncs_data r of
        Counts xs \<Rightarrow> xs = concat (map Samples recs)
      | Scaled ys \<Rightarrow>
          \<exists>factor. ys = map (\<lambda>x. f64_mul ops (f64_of_int ops (sint x)) factor)
                          (concat (map Samples recs)))"
    by blast
  have "list_all (\<lambda>x. length (Samples x) = 512) recs"
    unfolding recs by (simp add: list_all_iff length_Samples_decode_ncs)
  with recs f show ?thesis by blast
qed

theorem load_ncs_flattens_all_slots_witness:
  "\<exists>r ws (recs :: ncs_record list).
     load_ncs exact_ops example_file True False MICROVOLT_SCALING = Inr (r, ws) \<and>
     ncs_timestamp r = map TimeStamp recs \<and> length recs = 2 \<and>
     data_length (ncs_data r) = 512 * length recs \<and>
     ncs_data r = Counts (concat (map Samples recs))"
proof -
  from load_ncs_example [of True False] obtain r where
    r: "load_ncs exact_ops example_file True False MICROVOLT_SCALING = Inr (r, [])"
    and d: "ncs_data r = Counts (replicate 1024 0)" by auto
  from load_ncs_flattens_all_slots [OF r] obtain recs where
    recs: "recs = map (\<lambda>i. decode_ncs (take 1044 (drop (HEADER_LENGTH + i * 1044) example_file)))
                      [0..<(length example_file - HEADER_LENGTH) div 1044]"
    and f: "ncs_timestamp r = map TimeStamp recs"
      "data_length (ncs_data r) = 512 * length recs"
      "(case ncs_data r of
        Counts xs \<Rightarrow> xs = concat (map Samples recs)
      | Scaled ys \<Rightarrow>
          \<exists>factor. ys = map (\<lambda>x. f64_mul exact_ops (f64_of_int exact_ops (sint x)) factor)
                          (concat (map Samples recs)))"
    by blast
  have l: "length recs = 2" unfolding recs by (simp add: length_example_file)
  have c: "ncs_data r = Counts (concat (map Samples recs))"
    using f(3) d by simp
  have "load_ncs exact_ops example_file True False MICROVOLT_SCALING = Inr (r, []) \<and>
     ncs_timestamp r = map TimeStamp recs \<and> length recs = 2 \<and>
     data_length (ncs_data r) = 512 * length recs \<and>
     ncs_data r = Counts (concat (map Samples recs))"
    using r f(1,2) l c by simp
  then show ?thesis by blast
qed

text \<open>
  C3 (amended). Whenever \<open>load_ncs\<close> returns with the times derived, there are 512
  times per record, and every sample of the final record, the first one and the 511
  beyond it, has the final record's own timestamp (converted to \<open>float64\<close> and back):
  past the last anchor \<open>np.interp\<close> holds the last value, it does not continue the
  line through the last two anchors.
\<close>

theorem load_ncs_final_record_times_hold:
  assumes "load_ncs ops bytes True rs sc = Inr (r, ws)"
  shows "\<exists>ts. ncs_time r = Some ts \<and>
     length ts = 512 * length (ncs_timestamp r) \<and>
     (\<forall>i<512. ts ! (512 * (length (ncs_timestamp r) - 1) + i) =
        f64_to_uint64 ops (f64_of_int ops (uint (last (ncs_timestamp r)))))"
proof -
  from load_ncs_facts [OF assms] obtain recs where
    len2: "2 \<le> length recs"
    and t: "ncs_timestamp r = map TimeStamp recs"
    and tm0: "(if True then map_sum id Some (sample_times ops recs (512 * length recs))
       else Inr None) = Inr (ncs_time r)"
    by blast
  from tm0 have tm: "map_sum id Some (sample_times ops recs (512 * length recs)) =
      Inr (ncs_time r)" by simp
  let ?n = "length recs"
  let ?xp = "map (\<lambda>k. 512 * k) [0..<?n]"
  let ?fp = "map (\<lambda>r. f64_of_int ops (uint (TimeStamp r))) recs"
  let ?ts = "map (\<lambda>x. f64_to_uint64 ops (np_interp ops ?xp ?fp x)) [0..<512 * ?n]"
  have ne: "recs \<noteq> []" using len2 by auto
  have st: "sample_times ops recs (512 * ?n) = Inr ?ts"
    by (rule sample_times_eq [OF ne])
  with tm have 1: "ncs_time r = Some ?ts" by simp
  have 2: "length ?ts = 512 * length (ncs_timestamp r)" by (simp add: t)
  have 3: "?ts ! (512 * (length (ncs_timestamp r) - 1) + i) =
        f64_to_uint64 ops (f64_of_int ops (uint (last (ncs_timestamp r))))" if i: "i < 512" for i
  proof -
    let ?x = "512 * (?n - 1) + i"
    have lt: "?x < 512 * ?n" using i len2 by (cases ?n) auto
    have "np_interp ops ?xp ?fp ?x = ?fp ! (?n - 1)"
      by (rule np_interp_last_record) (use len2 in auto)
    also have "\<dots> = f64_of_int ops (uint (TimeStamp (recs ! (?n - 1))))"
      using ne by simp
    also have "TimeStamp (recs ! (?n - 1)) = last (ncs_timestamp r)"
      using ne by (simp add: t last_map last_conv_nth)
    finally show ?thesis using lt by (simp add: t)
  qed
  from 1 2 3 show ?thesis by blast
qed

theorem load_ncs_final_record_times_hold_witness:
  "\<exists>r ws ts. load_ncs exact_ops example_file True False MICROVOLT_SCALING = Inr (r, ws) \<and>
     ncs_time r = Some ts \<and> length ts = 1024 \<and>
     ts ! 512 = 2000 \<and> ts ! 513 = 2000 \<and> ts ! 1023 = 2000"
proof -
  from load_ncs_example [of True False] obtain r where
    r: "load_ncs exact_ops example_file True False MICROVOLT_SCALING = Inr (r, [])"
    and t: "ncs_timestamp r = [1000, 2000]" by auto
  from load_ncs_final_record_times_hold [OF r] obtain ts where
    ts: "ncs_time r = Some ts" "length ts = 512 * length (ncs_timestamp r)"
    and h: "\<forall>i<512. ts ! (512 * (length (ncs_timestamp r) - 1) + i) =
        f64_to_uint64 exact_ops (f64_of_int exact_ops (uint (last (ncs_timestamp r))))"
    by blast
  have v: "f64_to_uint64 exact_ops (f64_of_int exact_ops (uint (last (ncs_timestamp r)))) = 2000"
    by (simp add: t exact_ops_def)
  from h [rule_format, of 0] h [rule_format, of 1] h [rule_format, of 511]
  have "ts ! 512 = 2000 \<and> ts ! 513 = 2000 \<and> ts ! 1023 = 2000"
    unfolding v by (simp add: t)
  with r ts t show ?thesis by auto
qed

text \<open>
  The input that refutes C3 as stated: in the example file the last two records start
  at 1000 and 2000, so the line continued past 2000 gives the second sample of the
  final record the time 2001; \<open>load_ncs\<close> gives it 2000.
\<close>

theorem load_ncs_no_extrapolation_counterexample:
  "result_time (load_ncs exact_ops example_file True False MICROVOLT_SCALING) 513 = Some 2000 \<and>
   extrapolated_by_spec 1000 2000 1 = 2001"
proof -
  from load_ncs_example [of True False] obtain r where
    r: "load_ncs exact_ops example_file True False MICROVOLT_SCALING = Inr (r, [])"
    and t: "ncs_time r = Some (map (\<lambda>x. f64_to_uint64 exact_ops
                          (np_interp exact_ops [0, 512] [1000, 2000] x)) [0..<1024])"
    by auto
  show ?thesis
    by (simp add: result_time_def r t np_interp_example_513 extrapolated_by_spec_def)
qed

section \<open>Further properties\<close>

text \<open>\<open>estimate_record_count\<close> warns exactly when the bytes after the header are not a
  whole number of records.\<close>

theorem estimate_record_count_warns_iff:
  "0 < itemsize dt \<Longrightarrow>
   (\<exists>q. estimate_record_count ops n dt =
      Inr (q, [''File size is not divisible by record size (some bytes unaccounted for)''])) =
   ((int n - int HEADER_LENGTH) mod int (itemsize dt) \<noteq> 0)"
  by (simp add: estimate_record_count_def Let_def)

theorem estimate_record_count_warns_iff_witness:
  "\<exists>q. estimate_record_count exact_ops (length example_file) NCS_RECORD =
      Inr (q, [''File size is not divisible by record size (some bytes unaccounted for)''])"
  using estimate_record_count_warns_iff [of NCS_RECORD exact_ops "length example_file"]
  by (simp add: itemsize_NCS_RECORD length_example_file HEADER_LENGTH_def)

text \<open>The time line of the example header is a line whose token 4 is \<open>12/25/2020\<close> and
  whose last token is \<open>13:45:30.500\<close>.\<close>

theorem parse_neuralynx_time_string_example_witness:
  "parse_neuralynx_time_string
     ''## Time Opened (m/d/y): 12/25/2020  (h:m:s.ms) 13:45:30.500'' =
     Inr (Some \<lparr>year = 2020, month = 12, day = 25, hour = 13, minute = 45, second = 30,
                microsecond = 500000\<rparr>, [])"
proof -
  have s: "py_split ''## Time Opened (m/d/y): 12/25/2020  (h:m:s.ms) 13:45:30.500'' =
      [''##'', ''Time'', ''Opened'', ''(m/d/y):'', ''12/25/2020'', ''(h:m:s.ms)'', ''13:45:30.500'']"
    by code_simp
  show ?thesis
    by (rule parse_neuralynx_time_string_example) (simp_all add: s nth_opt_def last_opt_def)
qed

end
